theory Spec2Isabelle
  imports Complex_Main "HOL-Library.Word" "HOL-Library.Log_Nat"
begin

section \<open>JavaScript strings and errors\<close>

text \<open>
  A JavaScript string is modelled as a \<open>string\<close>: one \<open>char\<close> per code unit, for
  the code units below 256. \<open>is_space\<close> is the set of characters that
  \<open>String.prototype.trim\<close> removes (ECMAScript WhiteSpace and LineTerminator),
  restricted to that range: TAB, LF, VT, FF, CR, SPACE and NBSP.
\<close>

definition is_space :: "char \<Rightarrow> bool" where
  "is_space c = (of_char c \<in> {9, 10, 11, 12, 13, 32, 160 :: nat})"

definition trim :: "string \<Rightarrow> string" where
  "trim s = rev (dropWhile is_space (rev (dropWhile is_space s)))"

definition startsWith :: "string \<Rightarrow> string \<Rightarrow> bool" where
  "startsWith s p = (take (length p) s = p)"

definition endsWith :: "string \<Rightarrow> string \<Rightarrow> bool" where
  "endsWith s p = (length p \<le> length s \<and> drop (length s - length p) s = p)"

text \<open>
  A thrown \<open>Error\<close>: whether it is an instance of \<open>RateLimitError\<close>
  (rateLimiter.js), its \<open>code\<close> property when one was assigned, and its message.
\<close>

record js_error =
  is_rate_limit :: bool
  err_code :: "string option"
  err_message :: string

definition plain_error :: "string \<Rightarrow> js_error" where
  "plain_error msg = \<lparr>is_rate_limit = False, err_code = None, err_message = msg\<rparr>"

definition coded_error :: "string \<Rightarrow> string \<Rightarrow> js_error" where
  "coded_error c msg = \<lparr>is_rate_limit = False, err_code = Some c, err_message = msg\<rparr>"

section \<open>utils/jid.js\<close>

definition is_digit :: "char \<Rightarrow> bool" where
  "is_digit c = (48 \<le> (of_char c :: nat) \<and> (of_char c :: nat) \<le> 57)"

text \<open>\<^verbatim>\<open>value.replace(/[^0-9]/g, '')\<close>\<close>

definition normalizeDigits :: "string \<Rightarrow> string" where
  "normalizeDigits v = filter is_digit v"

text \<open>\<^verbatim>\<open>value.replace(/^\+/, '')\<close>: at most one leading plus sign is removed.\<close>

definition strip_plus :: "string \<Rightarrow> string" where
  "strip_plus v = (case v of [] \<Rightarrow> [] | c # cs \<Rightarrow> if c = CHR ''+'' then cs else v)"

definition ensureCountryCode :: "string \<Rightarrow> js_error + string" where
  "ensureCountryCode v =
     (if startsWith v ''62'' then Inr v
      else if startsWith v ''0'' then Inr (''62'' @ drop 1 v)
      else if startsWith v ''8'' then Inr (''62'' @ v)
      else Inl (plain_error ''Unsupported phone number format''))"

text \<open>
  \<open>normalizeJid\<close> on a string argument; \<open>!input\<close> holds of the empty string only.
\<close>

definition normalizeJid :: "string \<Rightarrow> js_error + string" where
  "normalizeJid input =
     (if input = [] then Inl (plain_error ''Empty JID'')
      else let v = trim input in
        if endsWith v ''@g.us'' then Inr v
        else if endsWith v ''@c.us'' then Inr v
        else if CHR ''@'' \<in> set v then Inr v
        else case ensureCountryCode (normalizeDigits (strip_plus v)) of
               Inl e \<Rightarrow> Inl e
             | Inr n \<Rightarrow> Inr (n @ ''@c.us''))"

section \<open>utils/errorMapping.js\<close>

record http_error =
  http_status :: nat
  http_code :: string
  http_message :: string

text \<open>The two codes exported by services/aiProxy.js.\<close>

definition AI_TIMEOUT_CODE :: string where
  "AI_TIMEOUT_CODE = ''AI_TIMEOUT''"

definition AI_DOWNSTREAM_CODE :: string where
  "AI_DOWNSTREAM_CODE = ''AI_DOWNSTREAM_ERROR''"

text \<open>\<^verbatim>\<open>a || b\<close> on strings: the empty string is falsy.\<close>

definition or_else :: "string \<Rightarrow> string \<Rightarrow> string" where
  "or_else a b = (if a = [] then b else a)"

text \<open>
  \<open>mapError\<close>; the argument is \<open>None\<close> for a falsy thrown value (\<open>!error\<close>).
  The \<open>switch\<close> compares \<open>error.code\<close> with strict equality, case by case in
  the order of the source.
\<close>

definition mapError :: "js_error option \<Rightarrow> http_error" where
  "mapError error =
     (case error of
        None \<Rightarrow> \<lparr>http_status = 500, http_code = ''BAD_GATEWAY'',
             http_message = ''Unexpected server error''\<rparr>
      | Some e \<Rightarrow>
          if is_rate_limit e then
            \<lparr>http_status = 429, http_code = ''RATE_LIMITED'',
             http_message = ''Rate limit exceeded''\<rparr>
          else if err_code e = Some ''INVALID_PAYLOAD'' then
            \<lparr>http_status = 400, http_code = ''INVALID_PAYLOAD'',
             http_message = err_message e\<rparr>
          else if err_code e = Some ''SESSION_NOT_FOUND'' then
            \<lparr>http_status = 404, http_code = ''SESSION_NOT_FOUND'',
             http_message = or_else (err_message e) ''Session not found''\<rparr>
          else if err_code e = Some ''SESSION_NOT_READY'' then
            \<lparr>http_status = 409, http_code = ''SESSION_NOT_READY'',
             http_message = ''Session is not ready''\<rparr>
          else if err_code e = Some ''MEDIA_TOO_LARGE'' then
            \<lparr>http_status = 413, http_code = ''MEDIA_TOO_LARGE'',
             http_message = err_message e\<rparr>
          else if err_code e = Some AI_TIMEOUT_CODE then
            \<lparr>http_status = 504, http_code = AI_TIMEOUT_CODE,
             http_message = ''AI backend timed out''\<rparr>
          else if err_code e = Some AI_DOWNSTREAM_CODE then
            \<lparr>http_status = 502, http_code = AI_DOWNSTREAM_CODE,
             http_message = ''AI downstream error''\<rparr>
          else if err_code e = Some ''BAD_GATEWAY'' then
            \<lparr>http_status = 502, http_code = ''BAD_GATEWAY'',
             http_message = err_message e\<rparr>
          else
            \<lparr>http_status = 500, http_code = ''BAD_GATEWAY'',
             http_message = or_else (err_message e) ''Internal server error''\<rparr>)"

section \<open>services/aiProxy.js: reply extraction\<close>

text \<open>
  The body of the AI response as axios hands it over: a parsed JSON value, a string
  or nothing. An object is the list of its own properties; the first binding of a
  name is the property's value.
\<close>

datatype jsval =
    JUndefined
  | JNull
  | JBool bool
  | JNum rat
  | JStr string
  | JArr "jsval list"
  | JObj "(string \<times> jsval) list"

fun truthy :: "jsval \<Rightarrow> bool" where
  "truthy JUndefined = False"
| "truthy JNull = False"
| "truthy (JBool b) = b"
| "truthy (JNum n) = (n \<noteq> 0)"
| "truthy (JStr s) = (s \<noteq> [])"
| "truthy (JArr _) = True"
| "truthy (JObj _) = True"

text \<open>
  \<^verbatim>\<open>v.k\<close> for a value \<open>v\<close> that is neither null nor undefined, and a name \<open>k\<close>
  that is no built-in property of strings, numbers, booleans or arrays (as
  \<open>reply\<close>, \<open>response\<close>, \<open>result\<close> and \<open>output\<close> are).
\<close>

fun get_prop :: "jsval \<Rightarrow> string \<Rightarrow> jsval" where
  "get_prop (JObj kvs) k = (case map_of kvs k of None \<Rightarrow> JUndefined | Some v \<Rightarrow> v)"
| "get_prop _ k = JUndefined"

text \<open>\<^verbatim>\<open>v?.k\<close>\<close>

fun opt_prop :: "jsval \<Rightarrow> string \<Rightarrow> jsval" where
  "opt_prop JUndefined k = JUndefined"
| "opt_prop JNull k = JUndefined"
| "opt_prop v k = get_prop v k"

text \<open>The \<open>for\<close> loop over the candidates; \<open>None\<close> is \<open>null\<close>.\<close>

fun first_reply :: "jsval list \<Rightarrow> string option" where
  "first_reply [] = None"
| "first_reply (JStr s # cs) = (if trim s \<noteq> [] then Some (trim s) else first_reply cs)"
| "first_reply (_ # cs) = first_reply cs"

definition extractReply :: "jsval \<Rightarrow> string option" where
  "extractReply data =
     (if \<not> truthy data then None
      else first_reply
        [get_prop data ''reply'',
         get_prop data ''response'',
         opt_prop (get_prop data ''result'') ''reply'',
         opt_prop (get_prop data ''result'') ''response'',
         get_prop data ''output''])"

text \<open>
  Reply extraction as the specification words it: the paths probed, in order; the
  value found at a path (undefined as soon as a step has no such property); the first
  candidate that is a string and not blank after trimming wins.
\<close>

definition reply_paths :: "string list list" where
  "reply_paths = [[''reply''], [''response''], [''result'', ''reply''], [''result'', ''response''], [''output'']]"

fun path_lookup :: "jsval \<Rightarrow> string list \<Rightarrow> jsval" where
  "path_lookup v [] = v"
| "path_lookup (JObj kvs) (k # ks) =
     (case map_of kvs k of None \<Rightarrow> JUndefined | Some x \<Rightarrow> path_lookup x ks)"
| "path_lookup _ (k # ks) = JUndefined"

fun nonblank_string :: "jsval \<Rightarrow> bool" where
  "nonblank_string (JStr s) = (trim s \<noteq> [])"
| "nonblank_string _ = False"

definition spec_reply :: "jsval \<Rightarrow> string option" where
  "spec_reply v =
     (case find nonblank_string (map (path_lookup v) reply_paths) of
        Some (JStr s) \<Rightarrow> Some (trim s)
      | _ \<Rightarrow> None)"

section \<open>JavaScript numbers\<close>

text \<open>
  A JavaScript number is an IEEE 754 binary64 value. A finite one is modelled as the
  rational it denotes, and an arithmetic operation of the source as the exact
  operation followed by \<open>double\<close>: rounding to the nearest double, ties to the even
  significand, with 53 significant bits and least quantum \<open>2 powi - 1074\<close>.
  For \<open>x \<noteq> 0\<close>, \<open>exponent x\<close> is the integer \<open>e\<close> with
  \<open>2 powi e \<le> \<bar>x\<bar> < 2 powi (e + 1)\<close>, and \<open>ulp x\<close> is the distance between
  neighbouring doubles at \<open>x\<close>.

  The exponent is not bounded above, so a result beyond the largest double stays a
  finite number where JavaScript gives \<open>Infinity\<close>. In rateLimiter.js such a result
  can only be \<open>refill\<close> or \<open>state.tokens + refill\<close>, used in the test
  \<open>refill >= 1\<close> and under \<open>Math.min(this.burst, \<dots>)\<close> with a finite
  \<open>burst\<close>, where it behaves as \<open>Infinity\<close> does. \<open>NaN\<close> does not arise from finite
  operands of \<open>+\<close>, \<open>-\<close>, \<open>*\<close> and of \<open>/\<close> by 60000.
\<close>

definition exponent :: "rat \<Rightarrow> int" where
  "exponent x =
     (case quotient_of \<bar>x\<bar> of
        (p, q) \<Rightarrow> (let k = bitlen p - bitlen q in if 2 powi k \<le> \<bar>x\<bar> then k else k - 1))"

definition ulp :: "rat \<Rightarrow> rat" where
  "ulp x = 2 powi (max (exponent x - 52) (- 1074))"

definition roundTiesToEven :: "rat \<Rightarrow> int" where
  "roundTiesToEven z =
     (let n = \<lfloor>z\<rfloor>; d = z - of_int n
      in if d < 1 / 2 then n else if 1 / 2 < d then n + 1 else if even n then n else n + 1)"

definition double :: "rat \<Rightarrow> rat" where
  "double x = (if x = 0 then 0 else ulp x * of_int (roundTiesToEven (x / ulp x)))"

section \<open>services/rateLimiter.js\<close>

text \<open>
  \<open>tokensPerMinute\<close>, \<open>burst\<close> and the tokens of an agent are finite doubles, and
  the arithmetic on them is that of doubles. Times are integer milliseconds
  (\<open>Date.now()\<close>), the queue limit is an integer. \<open>'j\<close> is the type of jobs
  \<open>{task, resolve, reject}\<close>.

  \<open>work\<close> is an async function: it runs up to \<open>await job.task()\<close>, is resumed
  when the task settles, and reschedules itself with \<open>setImmediate\<close>. The field
  \<open>cont\<close> records where that chain stands.
\<close>

datatype 'j work_cont =
    NoWork
  | AwaitTask 'j
  | WorkScheduled

record 'j agent_state =
  tokens :: rat
  lastRefill :: int
  queue :: "'j list"
  processing :: bool
  cont :: "'j work_cont"

record 'j limiter =
  tokensPerMinute :: rat
  burst :: rat
  queueLimit :: int
  agents :: "string \<rightharpoonup> 'j agent_state"

definition RateLimiter :: "rat \<Rightarrow> rat \<Rightarrow> int \<Rightarrow> 'j limiter" where
  "RateLimiter tpm b ql =
     \<lparr>tokensPerMinute = tpm, burst = b, queueLimit = ql, agents = Map.empty\<rparr>"

text \<open>The instance the application creates (app.js).\<close>

definition app_rateLimiter :: "'j limiter" where
  "app_rateLimiter = RateLimiter 100 100 500"

definition RateLimitError :: "string \<Rightarrow> js_error" where
  "RateLimitError msg = \<lparr>is_rate_limit = True, err_code = None, err_message = msg\<rparr>"

definition new_agent_state :: "'j limiter \<Rightarrow> int \<Rightarrow> 'j agent_state" where
  "new_agent_state L now =
     \<lparr>tokens = burst L, lastRefill = now, queue = [], processing = False, cont = NoWork\<rparr>"

text \<open>\<open>getAgentState\<close>: the limiter with the entry created if missing, and the entry.\<close>

definition getAgentState :: "'j limiter \<Rightarrow> int \<Rightarrow> string \<Rightarrow> 'j limiter \<times> 'j agent_state" where
  "getAgentState L now a =
     (case agents L a of
        None \<Rightarrow> (L\<lparr>agents := (agents L)(a \<mapsto> new_agent_state L now)\<rparr>, new_agent_state L now)
      | Some s \<Rightarrow> (L, s))"

text \<open>One run of \<open>work\<close> up to its first suspension.\<close>

definition work :: "'j agent_state \<Rightarrow> 'j agent_state" where
  "work s =
     (case queue s of
        [] \<Rightarrow> s\<lparr>processing := False, cont := NoWork\<rparr>
      | job # rest \<Rightarrow>
          if tokens s < 1 then s\<lparr>processing := False, cont := NoWork\<rparr>
          else s\<lparr>tokens := double (tokens s - 1), queue := rest, cont := AwaitTask job\<rparr>)"

definition processQueue_state :: "'j agent_state \<Rightarrow> 'j agent_state" where
  "processQueue_state s = (if processing s then s else work (s\<lparr>processing := True\<rparr>))"

definition processQueue :: "'j limiter \<Rightarrow> int \<Rightarrow> string \<Rightarrow> 'j limiter" where
  "processQueue L now a =
     (case getAgentState L now a of
        (L', s) \<Rightarrow> L'\<lparr>agents := (agents L')(a \<mapsto> processQueue_state s)\<rparr>)"

text \<open>
  \<open>enqueue\<close>: the limiter afterwards, and the error the returned promise is
  rejected with at once (\<open>None\<close>: the job was accepted and its promise is pending).
\<close>

definition enqueue :: "'j limiter \<Rightarrow> int \<Rightarrow> string \<Rightarrow> 'j \<Rightarrow> 'j limiter \<times> js_error option" where
  "enqueue L now a job =
     (case getAgentState L now a of
        (L', s) \<Rightarrow>
          if int (length (queue s)) \<ge> queueLimit L' then
            (L', Some (RateLimitError ''Queue capacity reached''))
          else
            (processQueue (L'\<lparr>agents := (agents L')(a \<mapsto> s\<lparr>queue := queue s @ [job]\<rparr>)\<rparr>) now a,
             None))"

definition refill_state :: "'j limiter \<Rightarrow> int \<Rightarrow> 'j agent_state \<Rightarrow> 'j agent_state" where
  "refill_state L now s =
     (let elapsed = double (double (rat_of_int (now - lastRefill s)) / 60000);
          refill = double (elapsed * tokensPerMinute L)
      in if refill \<ge> 1 then
           (let s' = s\<lparr>tokens := min (burst L) (double (tokens s + refill)), lastRefill := now\<rparr>
            in if queue s' \<noteq> [] then processQueue_state s' else s')
         else s)"

definition refillTokens :: "'j limiter \<Rightarrow> int \<Rightarrow> 'j limiter" where
  "refillTokens L now = L\<lparr>agents := (\<lambda>a. map_option (refill_state L now) (agents L a))\<rparr>"

text \<open>
  The awaited task settles: the job's promise is resolved or rejected and
  \<open>setImmediate(work)\<close> is issued. Later the scheduled \<open>work\<close> runs.
\<close>

definition task_settled :: "'j agent_state \<Rightarrow> 'j agent_state" where
  "task_settled s = (case cont s of AwaitTask job \<Rightarrow> s\<lparr>cont := WorkScheduled\<rparr> | _ \<Rightarrow> s)"

definition work_tick :: "'j agent_state \<Rightarrow> 'j agent_state" where
  "work_tick s = (case cont s of WorkScheduled \<Rightarrow> work s | _ \<Rightarrow> s)"

datatype 'j limiter_event =
    Enqueue int string 'j
  | Refill int
  | TaskSettled string
  | WorkTick string

fun limiter_step :: "'j limiter \<Rightarrow> 'j limiter_event \<Rightarrow> 'j limiter" where
  "limiter_step L (Enqueue now a job) = fst (enqueue L now a job)"
| "limiter_step L (Refill now) = refillTokens L now"
| "limiter_step L (TaskSettled a) = L\<lparr>agents := (\<lambda>b. if b = a then map_option task_settled (agents L b) else agents L b)\<rparr>"
| "limiter_step L (WorkTick a) = L\<lparr>agents := (\<lambda>b. if b = a then map_option work_tick (agents L b) else agents L b)\<rparr>"

definition limiter_run :: "'j limiter \<Rightarrow> 'j limiter_event list \<Rightarrow> 'j limiter" where
  "limiter_run L evs = foldl limiter_step L evs"


text \<open>
  The tokens of an agent state are a double between 0 and \<open>burst\<close>; so it is in
  every agent state of a limiter whose \<open>burst\<close> is a double and not negative.
\<close>

definition tokens_ok :: "rat \<Rightarrow> 'j agent_state \<Rightarrow> bool" where
  "tokens_ok b s = (0 \<le> tokens s \<and> tokens s \<le> b \<and> double (tokens s) = tokens s)"

definition limiter_ok :: "'j limiter \<Rightarrow> bool" where
  "limiter_ok L =
     (0 \<le> burst L \<and> double (burst L) = burst L
      \<and> (\<forall>a s. agents L a = Some s \<longrightarrow> tokens_ok (burst L) s))"

section \<open>services/whatsappClientManager.js: media preparation\<close>

definition MAX_MEDIA_BYTES :: nat where
  "MAX_MEDIA_BYTES = 10 * 1024 * 1024"

type_synonym buffer = "8 word list"

text \<open>
  A field of the request object: missing (\<open>undefined\<close>), \<open>null\<close>, or a value of
  the type the endpoint documents. Destructuring defaults apply to \<open>Undefined\<close> only.
\<close>

datatype 'a field = Undefined | Null | Val 'a

fun present :: "string field \<Rightarrow> bool" where
  "present (Val s) = (s \<noteq> [])"
| "present _ = False"

record media_request =
  data :: "string field"
  url :: "string field"
  filename :: "string field"
  mimeType :: "string field"
  save_to_temp :: "bool field"

text \<open>\<open>new MessageMedia(mimetype, data, filename)\<close> and the value \<open>prepareMedia\<close> returns.\<close>

record message_media =
  mimetype :: "string field"
  media_data :: string
  media_filename :: "string field"

record prepared_media =
  media :: message_media
  previewPath :: "string option"

text \<open>
  What \<open>prepareMedia\<close> asks of Node, axios and the file system:
  \<^item> \<open>base64_decode s\<close> is \<open>Buffer.from(s, 'base64')\<close>, \<open>base64_encode b\<close> is
    \<open>b.toString('base64')\<close>;
  \<^item> \<open>http_head u\<close> is the outcome of \<open>axios.head(u)\<close>: a rejection, or the value of
    \<open>Number(head.headers['content-length'])\<close> (\<open>None\<close> for NaN);
  \<^item> \<open>http_get u\<close> is the outcome of \<open>axios.get(u)\<close>: the error it rejects with, or
    the body and the \<open>content-type\<close> header;
  \<^item> \<open>url_pathname u\<close> is \<open>new URL(u).pathname\<close> (\<open>None\<close> when the constructor
    throws), \<open>path_basename\<close> and \<open>path_join\<close> are those of \<open>path\<close>;
  \<^item> \<open>temp_dir\<close> is \<open>env.tempDir\<close>, \<open>date_now\<close> is \<open>Date.now()\<close> in decimal;
  \<^item> \<open>write_preview p b\<close> is the outcome of \<open>ensureDir(env.tempDir)\<close> followed by
    \<open>fs.writeFile(p, b)\<close>: the error thrown, if any.
\<close>

datatype head_result = HeadFailed | HeadSize "rat option"

record get_response =
  body :: buffer
  content_type :: "string option"

record media_io =
  base64_decode :: "string \<Rightarrow> buffer"
  base64_encode :: "buffer \<Rightarrow> string"
  http_head :: "string \<Rightarrow> head_result"
  http_get :: "string \<Rightarrow> js_error + get_response"
  url_pathname :: "string \<Rightarrow> string option"
  path_basename :: "string \<Rightarrow> string"
  path_join :: "string \<Rightarrow> string \<Rightarrow> string"
  temp_dir :: string
  date_now :: string
  write_preview :: "string \<Rightarrow> buffer \<Rightarrow> js_error option"

text \<open>\<^verbatim>\<open>data.includes(',') ? data.split(',').pop() : data\<close>\<close>

definition base64_part :: "string \<Rightarrow> string" where
  "base64_part d =
     (if CHR '','' \<in> set d then rev (takeWhile (\<lambda>c. c \<noteq> CHR '','') (rev d)) else d)"

text \<open>A field inside a template literal.\<close>

fun field_text :: "string field \<Rightarrow> string" where
  "field_text (Val s) = s"
| "field_text Null = ''null''"
| "field_text Undefined = ''undefined''"

text \<open>The part of \<open>prepareMedia\<close> after the \<open>if\<close> chain (lines 223 to 231).\<close>

definition finish_media ::
  "media_io \<Rightarrow> buffer \<Rightarrow> string field \<Rightarrow> string field \<Rightarrow> bool \<Rightarrow> js_error + prepared_media" where
  "finish_media io buf mime fname save =
     (let messageMedia =
            \<lparr>mimetype = mime, media_data = base64_encode io buf, media_filename = fname\<rparr>
      in if save then
           (let p = path_join io (temp_dir io) (date_now io @ ''-'' @ field_text fname)
            in case write_preview io p buf of
                 Some e \<Rightarrow> Inl e
               | None \<Rightarrow> Inr \<lparr>media = messageMedia, previewPath = Some p\<rparr>)
         else Inr \<lparr>media = messageMedia, previewPath = None\<rparr>)"

text \<open>\<^verbatim>\<open>!size || Number.isNaN(size) || size > MAX_MEDIA_BYTES\<close>\<close>

definition size_rejected :: "rat option \<Rightarrow> bool" where
  "size_rejected sz =
     (case sz of None \<Rightarrow> True | Some n \<Rightarrow> n = 0 \<or> rat_of_nat MAX_MEDIA_BYTES < n)"

text \<open>
  The branches \<open>else if (url)\<close> and \<open>else\<close> of \<open>prepareMedia\<close> (lines 190 to 221),
  taken when \<open>data\<close> is falsy. \<open>filename0\<close> and \<open>mimeType0\<close> are the parameters
  after their defaults.
\<close>

definition media_from_url ::
  "media_io \<Rightarrow> string field \<Rightarrow> string field \<Rightarrow> string field \<Rightarrow> bool \<Rightarrow> js_error + prepared_media" where
  "media_from_url io u filename0 mimeType0 save =
     (case u of
        Val link \<Rightarrow>
          if link \<noteq> [] then
            (case http_head io link of
               HeadFailed \<Rightarrow> Inl (coded_error ''BAD_GATEWAY'' ''Failed to inspect remote media'')
             | HeadSize sz \<Rightarrow>
                 if size_rejected sz then
                   Inl (coded_error ''MEDIA_TOO_LARGE'' ''Remote media exceeds 10MB or size unknown'')
                 else
                   (case http_get io link of
                      Inl e \<Rightarrow> Inl e
                    | Inr response \<Rightarrow>
                        (let mime = (case content_type response of
                                       Some t \<Rightarrow> if t \<noteq> [] then Val t else mimeType0
                                     | None \<Rightarrow> mimeType0);
                             fname = (if \<not> present filename0 then
                                        (case url_pathname io link of
                                           Some pathname \<Rightarrow> Val (path_basename io pathname)
                                         | None \<Rightarrow> Val ''image.jpg'')
                                      else filename0)
                         in finish_media io (body response) mime fname save)))
          else Inl (coded_error ''INVALID_PAYLOAD'' ''Either data or url is required'')
      | _ \<Rightarrow> Inl (coded_error ''INVALID_PAYLOAD'' ''Either data or url is required''))"

definition prepareMedia :: "media_io \<Rightarrow> media_request \<Rightarrow> js_error + prepared_media" where
  "prepareMedia io req =
     (let filename0 = (case filename req of Undefined \<Rightarrow> Val ''image.jpg'' | f \<Rightarrow> f);
          mimeType0 = (case mimeType req of Undefined \<Rightarrow> Val ''image/jpeg'' | t \<Rightarrow> t);
          save = (save_to_temp req \<noteq> Val False)
      in case data req of
           Val d \<Rightarrow>
             if d \<noteq> [] then
               (let buf = base64_decode io (base64_part d)
                in if length buf > MAX_MEDIA_BYTES then
                     Inl (coded_error ''MEDIA_TOO_LARGE'' ''Media exceeds 10MB'')
                   else finish_media io buf mimeType0 filename0 save)
             else media_from_url io (url req) filename0 mimeType0 save
         | _ \<Rightarrow> media_from_url io (url req) filename0 mimeType0 save)"

section \<open>services/whatsappClientManager.js: the session supervisor\<close>

subsection \<open>State\<close>

datatype agent_status = awaiting_qr | connected | disconnected | auth_failed

text \<open>A row of table \<open>whatsapp_user\<close>. Times are integers (milliseconds).\<close>

record agent_record =
  user_id :: int
  agent_id :: string
  agent_name :: string
  api_key :: string
  endpoint_url_run :: "string option"
  agent_status :: agent_status
  last_connected_at :: "int option"
  last_disconnected_at :: "int option"
  created_at :: int
  updated_at :: int

record qr_payload =
  contentType :: string
  base64 :: string

text \<open>
  The session object built by \<open>ensureClient\<close>. \<open>metricsCounted\<close> is undefined
  (falsy) until \<open>ready\<close> sets it. \<open>handler_record\<close> is the variable
  \<open>agentRecord\<close> that the event handlers of this session's client close over:
  the argument of the \<open>ensureClient\<close> call that created the session.
\<close>

record session =
  agent :: agent_record
  client :: nat
  qr :: "qr_payload option"
  qrUpdatedAt :: "int option"
  isReady :: bool
  status :: agent_status
  lastAgentRefresh :: int
  shuttingDown :: bool
  metricsCounted :: bool
  handler_record :: agent_record

text \<open>
  The \<open>entry\<close> object of \<open>waitForQr\<close>: its promise (\<open>outcome\<close> is \<open>None\<close> while
  pending; a promise keeps its first settlement), and whether its timeout is still
  scheduled. \<open>resolve_calls\<close> and \<open>reject_calls\<close> count the calls of
  \<open>entry.resolve\<close> and \<open>entry.reject\<close>; the source has no such counters.
\<close>

record qr_entry =
  entry_agent :: string
  outcome :: "(js_error + qr_payload option) option"
  timer_live :: bool
  resolve_calls :: nat
  reject_calls :: nat

text \<open>The closure of the timer set by \<open>scheduleSessionRestart\<close>.\<close>

record restart_timer =
  timer_record :: agent_record
  timer_reason :: string
  timer_clearAuth :: bool
  timer_attempt :: nat
  timer_delay :: nat

text \<open>
  The manager and what it acts on: the table (a list of rows), the session and entry
  objects by identity, the three maps of the class, the gauge
  \<open>metrics.sessionsActive\<close>, and \<open>authDirs\<close>, the directories that exist in
  \<open>env.wwebAuthDir\<close> on disk (by their path below it). Session objects stay
  reachable from the handlers of their client after they have left \<open>sessions\<close>, so
  they live in a store of their own. Queries and \<open>fs.rm\<close> do not fail in this
  model.
\<close>

record manager =
  db :: "agent_record list"
  objects :: "nat \<rightharpoonup> session"
  sessions :: "string \<rightharpoonup> nat"
  entries :: "nat \<rightharpoonup> qr_entry"
  readyPromises :: "string \<rightharpoonup> nat"
  reconnectTimers :: "string \<rightharpoonup> restart_timer"
  sessionsActive :: int
  next_ref :: nat
  authDirs :: "string set"

definition new_manager :: "agent_record list \<Rightarrow> manager" where
  "new_manager rows =
     \<lparr>db = rows, objects = Map.empty, sessions = Map.empty, entries = Map.empty,
      readyPromises = Map.empty, reconnectTimers = Map.empty, sessionsActive = 0,
      next_ref = 0, authDirs = {}\<rparr>"

subsection \<open>Persistence\<close>

text \<open>\<^verbatim>\<open>select * from whatsapp_user where agent_id = $1 limit 1\<close>\<close>

definition getAgent :: "agent_record list \<Rightarrow> string \<Rightarrow> agent_record option" where
  "getAgent rows agentId = find (\<lambda>r. agent_id r = agentId) rows"

datatype status_extra = NoExtra | LastConnected | LastDisconnected

definition set_status :: "agent_status \<Rightarrow> status_extra \<Rightarrow> int \<Rightarrow> agent_record \<Rightarrow> agent_record" where
  "set_status st extra now r =
     (let r' = r\<lparr>agent_status := st, updated_at := now\<rparr>
      in case extra of
           NoExtra \<Rightarrow> r'
         | LastConnected \<Rightarrow> r'\<lparr>last_connected_at := Some now\<rparr>
         | LastDisconnected \<Rightarrow> r'\<lparr>last_disconnected_at := Some now\<rparr>)"

definition updateStatus ::
  "agent_record list \<Rightarrow> agent_record \<Rightarrow> agent_status \<Rightarrow> status_extra \<Rightarrow> int \<Rightarrow> agent_record list" where
  "updateStatus rows agentRecord st extra now =
     map (\<lambda>r. if user_id r = user_id agentRecord \<and> agent_id r = agent_id agentRecord
              then set_status st extra now r else r) rows"

subsection \<open>QR rendezvous\<close>

definition SESSION_NOT_FOUND :: js_error where
  "SESSION_NOT_FOUND = coded_error ''SESSION_NOT_FOUND'' ''Session not found''"

definition live_session :: "manager \<Rightarrow> string \<Rightarrow> (nat \<times> session) option" where
  "live_session m agentId =
     (case sessions m agentId of
        None \<Rightarrow> None
      | Some sid \<Rightarrow> (case objects m sid of None \<Rightarrow> None | Some s \<Rightarrow> Some (sid, s)))"

definition entry_resolve :: "manager \<Rightarrow> nat \<Rightarrow> qr_payload option \<Rightarrow> manager" where
  "entry_resolve m w v =
     (case entries m w of
        None \<Rightarrow> m
      | Some e \<Rightarrow>
          m\<lparr>entries := (entries m)(w \<mapsto>
              e\<lparr>timer_live := False,
                outcome := (case outcome e of None \<Rightarrow> Some (Inr v) | Some x \<Rightarrow> Some x),
                resolve_calls := resolve_calls e + 1\<rparr>)\<rparr>)"

definition entry_reject :: "manager \<Rightarrow> nat \<Rightarrow> js_error \<Rightarrow> manager" where
  "entry_reject m w err =
     (case entries m w of
        None \<Rightarrow> m
      | Some e \<Rightarrow>
          m\<lparr>entries := (entries m)(w \<mapsto>
              e\<lparr>timer_live := False,
                outcome := (case outcome e of None \<Rightarrow> Some (Inl err) | Some x \<Rightarrow> Some x),
                reject_calls := reject_calls e + 1\<rparr>)\<rparr>)"

text \<open>What \<open>waitForQr\<close> returns: the cached QR, or the promise of an entry.\<close>

datatype qr_wait = Cached qr_payload | Promise nat

definition waitForQr :: "manager \<Rightarrow> string \<Rightarrow> js_error + manager \<times> qr_wait" where
  "waitForQr m agentId =
     (case live_session m agentId of
        None \<Rightarrow> Inl SESSION_NOT_FOUND
      | Some (sid, s) \<Rightarrow>
          (case qr s of
             Some q \<Rightarrow> Inr (m, Cached q)
           | None \<Rightarrow>
               (case readyPromises m agentId of
                  Some w \<Rightarrow> Inr (m, Promise w)
                | None \<Rightarrow>
                    (let w = next_ref m;
                         entry = \<lparr>entry_agent = agentId, outcome = None, timer_live = True,
                                  resolve_calls = 0, reject_calls = 0\<rparr>
                     in Inr (m\<lparr>entries := (entries m)(w \<mapsto> entry),
                               readyPromises := (readyPromises m)(agentId \<mapsto> w),
                               next_ref := w + 1\<rparr>, Promise w)))))"

text \<open>The timeout of entry \<open>w\<close> fires (it cannot once \<open>clearTimeout\<close> was called).\<close>

definition qr_timeout :: "manager \<Rightarrow> nat \<Rightarrow> manager" where
  "qr_timeout m w =
     (case entries m w of
        None \<Rightarrow> m
      | Some e \<Rightarrow>
          if timer_live e then
            entry_reject (m\<lparr>readyPromises := (readyPromises m)(entry_agent e := None)\<rparr>) w
              (coded_error ''SESSION_NOT_READY'' ''QR generation timed out'')
          else m)"

subsection \<open>Client lifecycle\<close>

text \<open>
  \<open>scheduleSessionRestart\<close>, called with an agent record as all its callers do
  (lines 315, 331 and 569); \<open>agentId\<close> is then \<open>agentRecord.agent_id\<close>, which is
  not empty for a row of the table. \<open>delayMs\<close> is \<open>None\<close> when the option is not
  a number.
\<close>

definition scheduleSessionRestart ::
  "manager \<Rightarrow> agent_record \<Rightarrow> string \<Rightarrow> bool \<Rightarrow> nat \<Rightarrow> nat option \<Rightarrow> manager" where
  "scheduleSessionRestart m agentRecord reason clearAuth attempt delayMs =
     (let agentId = agent_id agentRecord
      in if reconnectTimers m agentId \<noteq> None then m
         else
           (let delay = (case delayMs of Some d \<Rightarrow> d | None \<Rightarrow> min 30000 (attempt * 5000))
            in m\<lparr>reconnectTimers := (reconnectTimers m)(agentId \<mapsto>
                   \<lparr>timer_record = agentRecord, timer_reason = reason,
                    timer_clearAuth = clearAuth, timer_attempt = attempt,
                    timer_delay = delay\<rparr>)\<rparr>))"

text \<open>
  \<open>ensureClient\<close>. \<open>failure\<close> is the error thrown by \<open>ensureDir\<close> or by the
  \<open>Client\<close> constructor, if any. The result carries the identity of the session.
\<close>

definition ensureClient ::
  "manager \<Rightarrow> agent_record \<Rightarrow> int \<Rightarrow> js_error option \<Rightarrow> js_error + manager \<times> nat" where
  "ensureClient m agentRecord now failure =
     (case live_session m (agent_id agentRecord) of
        Some (sid, existing) \<Rightarrow>
          Inr (m\<lparr>objects := (objects m)(sid \<mapsto>
                  existing\<lparr>agent := agentRecord, lastAgentRefresh := now\<rparr>)\<rparr>, sid)
      | None \<Rightarrow>
          (case failure of
             Some e \<Rightarrow> Inl e
           | None \<Rightarrow>
               (let sid = next_ref m;
                    s = \<lparr>agent = agentRecord, client = sid, qr = None, qrUpdatedAt = None,
                         isReady = False, status = agent_status agentRecord,
                         lastAgentRefresh = now, shuttingDown = False,
                         metricsCounted = False, handler_record = agentRecord\<rparr>
                in Inr (m\<lparr>objects := (objects m)(sid \<mapsto> s),
                          sessions := (sessions m)(agent_id agentRecord \<mapsto> sid),
                          next_ref := sid + 1\<rparr>, sid))))"

text \<open>
  \<open>sessionAuthPath\<close>, as a path below \<open>env.wwebAuthDir\<close>, for an agent id without
  path separators.
\<close>

definition sessionAuthPath :: "string \<Rightarrow> string" where
  "sessionAuthPath agentId = ''session-'' @ agentId"

text \<open>
  \<open>teardownClient\<close>: the reconnect timer is cancelled, the live session is marked
  \<open>shuttingDown\<close> and its client destroyed, the gauge is adjusted, the session and
  the entry of \<open>readyPromises\<close> are deleted from their maps, the row is updated
  unless \<open>preserveDb\<close>, and with \<open>clearAuth\<close> the auth directory of the agent is
  removed.
\<close>

definition teardownClient :: "manager \<Rightarrow> string \<Rightarrow> bool \<Rightarrow> bool \<Rightarrow> int \<Rightarrow> manager" where
  "teardownClient m agentId preserveDb clearAuth now =
     (let m1 = m\<lparr>reconnectTimers := (reconnectTimers m)(agentId := None)\<rparr>;
          m2 = (case live_session m1 agentId of
                  None \<Rightarrow> m1
                | Some (sid, s) \<Rightarrow>
                    m1\<lparr>objects := (objects m1)(sid \<mapsto> s\<lparr>shuttingDown := True\<rparr>),
                       sessionsActive :=
                         (if metricsCounted s then sessionsActive m1 - 1 else sessionsActive m1)\<rparr>);
          m3 = m2\<lparr>sessions := (sessions m2)(agentId := None),
                  readyPromises := (readyPromises m2)(agentId := None)\<rparr>;
          m4 = (if \<not> preserveDb then
                  m3\<lparr>db := map (\<lambda>r. if agent_id r = agentId
                                     then r\<lparr>agent_status := disconnected,
                                            last_disconnected_at := Some now, updated_at := now\<rparr>
                                     else r) (db m3)\<rparr>
                else m3)
      in if clearAuth then m4\<lparr>authDirs := authDirs m4 - {sessionAuthPath agentId}\<rparr> else m4)"

subsection \<open>Client event handlers\<close>

text \<open>
  Each handler is taken as one step, on the session object \<open>sid\<close> it closes over.
  For \<open>qr\<close>, \<open>encoded\<close> is the payload built from \<open>QRCode.toDataURL\<close>, or
  \<open>None\<close> when the encoding throws.
\<close>

definition on_qr :: "manager \<Rightarrow> nat \<Rightarrow> qr_payload option \<Rightarrow> int \<Rightarrow> manager" where
  "on_qr m sid encoded now =
     (case objects m sid of
        None \<Rightarrow> m
      | Some s \<Rightarrow>
          (let s1 = (case encoded of Some e \<Rightarrow> s\<lparr>qr := Some e\<rparr> | None \<Rightarrow> s);
               s2 = s1\<lparr>qrUpdatedAt := Some now, status := awaiting_qr\<rparr>;
               agentId = agent_id (handler_record s);
               m1 = m\<lparr>objects := (objects m)(sid \<mapsto> s2),
                      db := updateStatus (db m) (handler_record s) awaiting_qr NoExtra now\<rparr>
           in case readyPromises m1 agentId of
                None \<Rightarrow> m1
              | Some pending \<Rightarrow>
                  entry_resolve (m1\<lparr>readyPromises := (readyPromises m1)(agentId := None)\<rparr>)
                    pending encoded))"

definition on_ready :: "manager \<Rightarrow> nat \<Rightarrow> int \<Rightarrow> manager" where
  "on_ready m sid now =
     (case objects m sid of
        None \<Rightarrow> m
      | Some s \<Rightarrow>
          (let s1 = s\<lparr>isReady := True, status := connected\<rparr>;
               counted = metricsCounted s1;
               s2 = (if \<not> counted then s1\<lparr>metricsCounted := True\<rparr> else s1)
           in m\<lparr>objects := (objects m)(sid \<mapsto> s2),
                sessionsActive := (if \<not> counted then sessionsActive m + 1 else sessionsActive m),
                db := updateStatus (db m) (handler_record s) connected LastConnected now\<rparr>))"

definition on_auth_failure :: "manager \<Rightarrow> nat \<Rightarrow> int \<Rightarrow> manager" where
  "on_auth_failure m sid now =
     (case objects m sid of
        None \<Rightarrow> m
      | Some s \<Rightarrow>
          if shuttingDown s then m
          else
            (let s1 = s\<lparr>status := auth_failed, isReady := False\<rparr>;
                 m1 = m\<lparr>objects := (objects m)(sid \<mapsto> s1),
                        db := updateStatus (db m) (handler_record s) auth_failed
                                LastDisconnected now\<rparr>
             in scheduleSessionRestart m1 (handler_record s) ''auth_failure'' True 1 None))"

text \<open>
  Not a handler of the manager: the client of session \<open>sid\<close> stores its credentials.
  Its \<open>LocalAuth\<close> strategy was created in \<open>ensureClient\<close> with
  \<open>clientId = agentRecord.agent_id\<close> and \<open>dataPath = env.wwebAuthDir\<close>, and writes
  the directory that \<open>sessionAuthPath\<close> names.
\<close>

definition auth_stored :: "manager \<Rightarrow> nat \<Rightarrow> manager" where
  "auth_stored m sid =
     (case objects m sid of
        None \<Rightarrow> m
      | Some s \<Rightarrow>
          m\<lparr>authDirs := insert (sessionAuthPath (agent_id (handler_record s))) (authDirs m)\<rparr>)"

text \<open>\<open>toLowerCase\<close> on the letters of the modelled range, and \<open>String.prototype.includes\<close>.\<close>

definition lower_char :: "char \<Rightarrow> char" where
  "lower_char c =
     (let n = (of_char c :: nat)
      in if (65 \<le> n \<and> n \<le> 90) \<or> (192 \<le> n \<and> n \<le> 222 \<and> n \<noteq> 215)
         then char_of (n + 32) else c)"

definition toLowerCase :: "string \<Rightarrow> string" where
  "toLowerCase s = map lower_char s"

definition str_includes :: "string \<Rightarrow> string \<Rightarrow> bool" where
  "str_includes s p = list_ex (\<lambda>i. startsWith (drop i s) p) [0..<Suc (length s)]"

text \<open>\<open>reason\<close> is \<open>None\<close> when the client passes no string.\<close>

definition on_disconnected :: "manager \<Rightarrow> nat \<Rightarrow> string option \<Rightarrow> int \<Rightarrow> manager" where
  "on_disconnected m sid reason now =
     (case objects m sid of
        None \<Rightarrow> m
      | Some s \<Rightarrow>
          if shuttingDown s then m
          else
            (let s1 = s\<lparr>status := disconnected, isReady := False\<rparr>;
                 counted = metricsCounted s1;
                 s2 = (if counted then s1\<lparr>metricsCounted := False\<rparr> else s1);
                 m1 = m\<lparr>objects := (objects m)(sid \<mapsto> s2),
                        sessionsActive :=
                          (if counted then sessionsActive m - 1 else sessionsActive m),
                        db := updateStatus (db m) (handler_record s) disconnected
                                LastDisconnected now\<rparr>;
                 clearAuth = (case reason of
                                Some r \<Rightarrow> str_includes (toLowerCase r) ''logout''
                              | None \<Rightarrow> False);
                 why = (case reason of
                          Some r \<Rightarrow> if r \<noteq> [] then r else ''disconnected''
                        | None \<Rightarrow> ''disconnected'')
             in scheduleSessionRestart m1 (handler_record s) why clearAuth 1 None))"

subsection \<open>The reconnect timer\<close>

text \<open>
  The callback of the timer that \<open>scheduleSessionRestart\<close> set for \<open>agentId\<close>,
  run to its end with no other handler running at its three \<open>await\<close>s.
  \<open>freshRecord\<close> is the value of
  \<^verbatim>\<open>(await this.getAgent(agentId)) || agentRecord\<close>, \<open>None\<close> when it is falsy:
  \<open>getAgent\<close> gives the row or \<open>null\<close>, and \<open>agentRecord\<close>, the record the
  timer closes over, is an object. On a falsy \<open>freshRecord\<close> the callback logs
  \<open>Skipping reconnect because agent record is missing\<close> and returns (lines 560 to
  563). \<open>failure\<close> is as in \<open>ensureClient\<close>.
\<close>

definition freshRecord :: "agent_record list \<Rightarrow> string \<Rightarrow> agent_record \<Rightarrow> agent_record option" where
  "freshRecord rows agentId agentRecord =
     (case getAgent rows agentId of Some r \<Rightarrow> Some r | None \<Rightarrow> Some agentRecord)"

definition restart_timer_fired :: "manager \<Rightarrow> string \<Rightarrow> int \<Rightarrow> js_error option \<Rightarrow> manager" where
  "restart_timer_fired m agentId now failure =
     (case reconnectTimers m agentId of
        None \<Rightarrow> m
      | Some t \<Rightarrow>
          (let m1 = m\<lparr>reconnectTimers := (reconnectTimers m)(agentId := None)\<rparr>
           in case freshRecord (db m1) agentId (timer_record t) of
                None \<Rightarrow> m1
              | Some fresh \<Rightarrow>
                  (let m2 = teardownClient m1 agentId True (timer_clearAuth t) now
                   in case ensureClient m2 fresh now failure of
                        Inr (m3, sid) \<Rightarrow> m3
                      | Inl e \<Rightarrow>
                          scheduleSessionRestart m2 (timer_record t) (timer_reason t)
                            (timer_clearAuth t) (timer_attempt t + 1)
                            (Some (min (timer_delay t * 2) 60000)))))"

subsection \<open>Runs of the supervisor\<close>

datatype manager_event =
    EnsureClient agent_record int "js_error option"
  | ClientQr nat "qr_payload option" int
  | ClientReady nat int
  | ClientAuthFailure nat int
  | ClientDisconnected nat "string option" int
  | ClientAuthStored nat
  | Teardown string bool bool int
  | WaitForQr string
  | QrTimeout nat
  | RestartTimer string int "js_error option"

fun manager_step :: "manager \<Rightarrow> manager_event \<Rightarrow> manager" where
  "manager_step m (EnsureClient r now failure) =
     (case ensureClient m r now failure of Inl e \<Rightarrow> m | Inr (m', sid) \<Rightarrow> m')"
| "manager_step m (ClientQr sid encoded now) = on_qr m sid encoded now"
| "manager_step m (ClientReady sid now) = on_ready m sid now"
| "manager_step m (ClientAuthFailure sid now) = on_auth_failure m sid now"
| "manager_step m (ClientDisconnected sid reason now) = on_disconnected m sid reason now"
| "manager_step m (ClientAuthStored sid) = auth_stored m sid"
| "manager_step m (Teardown agentId preserveDb clearAuth now) =
     teardownClient m agentId preserveDb clearAuth now"
| "manager_step m (WaitForQr agentId) =
     (case waitForQr m agentId of Inl e \<Rightarrow> m | Inr (m', r) \<Rightarrow> m')"
| "manager_step m (QrTimeout w) = qr_timeout m w"
| "manager_step m (RestartTimer agentId now failure) = restart_timer_fired m agentId now failure"

definition manager_run :: "manager \<Rightarrow> manager_event list \<Rightarrow> manager" where
  "manager_run m evs = foldl manager_step m evs"

subsection \<open>Invariants of the supervisor\<close>

text \<open>\<open>is_ready = true\<close> implies \<open>status = connected\<close>, for every session object.\<close>

definition ready_connected :: "manager \<Rightarrow> bool" where
  "ready_connected m = (\<forall>sid s. objects m sid = Some s \<longrightarrow> isReady s \<longrightarrow> status s = connected)"

text \<open>
  An entry is pending with its timeout scheduled and no call made, or settled by
  exactly one call, of \<open>entry.reject\<close> or of \<open>entry.resolve\<close>, with its timeout
  cleared. In a well-formed manager every entry is so and was created by
  \<open>waitForQr\<close>, and an entry registered in \<open>readyPromises\<close> is pending, under the
  agent it was created for.
\<close>

definition entry_ok :: "qr_entry \<Rightarrow> bool" where
  "entry_ok e =
     (case outcome e of
        None \<Rightarrow> timer_live e \<and> resolve_calls e = 0 \<and> reject_calls e = 0
      | Some (Inl err) \<Rightarrow> \<not> timer_live e \<and> resolve_calls e = 0 \<and> reject_calls e = 1
      | Some (Inr v) \<Rightarrow> \<not> timer_live e \<and> resolve_calls e = 1 \<and> reject_calls e = 0)"

definition waiters_ok :: "manager \<Rightarrow> bool" where
  "waiters_ok m =
     ((\<forall>w e. entries m w = Some e \<longrightarrow> w < next_ref m \<and> entry_ok e)
      \<and> (\<forall>a w. readyPromises m a = Some w \<longrightarrow>
            (\<exists>e. entries m w = Some e \<and> outcome e = None \<and> entry_agent e = a)))"

subsection \<open>Sending text\<close>

text \<open>The task \<open>sendText\<close> hands to the rate limiter: a \<open>sendMessage\<close> call.\<close>

datatype send_job = SendMessage nat string string "string option"

text \<open>
  \<open>sendText\<close> up to the point where it awaits the promise of \<open>enqueue\<close>:
  \<open>Inr ()\<close> says that the job was accepted by the limiter.
\<close>

definition sendText ::
  "manager \<Rightarrow> send_job limiter \<Rightarrow> string \<Rightarrow> string \<Rightarrow> string \<Rightarrow> string option \<Rightarrow> int \<Rightarrow>
   js_error option \<Rightarrow> (manager \<times> send_job limiter) \<times> (js_error + unit)" where
  "sendText m L agentId to msg quotedMessageId now failure =
     (case getAgent (db m) agentId of
        None \<Rightarrow> ((m, L), Inl SESSION_NOT_FOUND)
      | Some agentRecord \<Rightarrow>
          (case ensureClient m agentRecord now failure of
             Inl e \<Rightarrow> ((m, L), Inl e)
           | Inr (m1, sid) \<Rightarrow>
               if \<not> (case objects m1 sid of Some s \<Rightarrow> isReady s | None \<Rightarrow> False) then
                 ((m1, L), Inl (coded_error ''SESSION_NOT_READY'' ''Session not ready''))
               else
                 (case normalizeJid to of
                    Inl e \<Rightarrow> ((m1, L), Inl e)
                  | Inr jid \<Rightarrow>
                      (case enqueue L now agentId (SendMessage sid jid msg quotedMessageId) of
                         (L1, Some e) \<Rightarrow> ((m1, L1), Inl e)
                       | (L1, None) \<Rightarrow> ((m1, L1), Inr ())))))"

text \<open>
  The handler of \<open>POST /agents/:agentId/messages\<close> (routes/agents.js), after the
  authentication middleware: the error response it sends, if any.
\<close>

definition post_messages ::
  "manager \<Rightarrow> send_job limiter \<Rightarrow> string \<Rightarrow> string field \<Rightarrow> string field \<Rightarrow> string option \<Rightarrow> int \<Rightarrow>
   js_error option \<Rightarrow> (manager \<times> send_job limiter) \<times> http_error option" where
  "post_messages m L agentId to msg quotedMessageId now failure =
     (case (to, msg) of
        (Val t, Val b) \<Rightarrow>
          if t = [] \<or> b = [] then
            ((m, L), Some \<lparr>http_status = 400, http_code = ''INVALID_PAYLOAD'',
                           http_message = ''to and message are required''\<rparr>)
          else
            (case sendText m L agentId t b quotedMessageId now failure of
               (st, Inl e) \<Rightarrow> (st, Some (mapError (Some e)))
             | (st, Inr u) \<Rightarrow> (st, None))
      | _ \<Rightarrow>
          ((m, L), Some \<lparr>http_status = 400, http_code = ''INVALID_PAYLOAD'',
                         http_message = ''to and message are required''\<rparr>))"

section \<open>Concrete inputs used in the examples\<close>

text \<open>The agent of the specification's first scenario, as a table row.\<close>

definition example_agent :: agent_record where
  "example_agent =
     \<lparr>user_id = 1, agent_id = ''a1'', agent_name = ''A'', api_key = ''k1'',
      endpoint_url_run = None, agent_status = awaiting_qr, last_connected_at = None,
      last_disconnected_at = None, created_at = 0, updated_at = 0\<rparr>"

text \<open>
  A world for \<open>prepareMedia\<close> in which the three bytes \<open>ABC\<close> are the decoding of
  \<open>QUJD\<close> and also what \<open>https://example.com/pics/cat.png\<close> serves, as
  \<open>image/png\<close>; nothing fails.
\<close>

definition example_media_io :: media_io where
  "example_media_io =
     \<lparr>base64_decode = (\<lambda>s. if s = ''QUJD'' then [65, 66, 67] else []),
      base64_encode = (\<lambda>b. if b = [65, 66, 67] then ''QUJD'' else []),
      http_head = (\<lambda>u. HeadSize (Some 3)),
      http_get = (\<lambda>u. Inr \<lparr>body = [65, 66, 67], content_type = Some ''image/png''\<rparr>),
      url_pathname = (\<lambda>u. if u = ''https://example.com/pics/cat.png'' then Some ''/pics/cat.png'' else None),
      path_basename = (\<lambda>p. rev (takeWhile (\<lambda>c. c \<noteq> CHR ''/'') (rev p))),
      path_join = (\<lambda>d f. d @ ''/'' @ f),
      temp_dir = ''/tmp/wwebjs'',
      date_now = ''1700000000000'',
      write_preview = (\<lambda>p b. None)\<rparr>"

text \<open>
  A limiter with \<open>burst = 2\<close>, and a run of it: five jobs are enqueued at time 0 and
  every task settles before the next timer tick; \<open>refillTokens\<close> runs at 603 ms and
  at 1800 ms.
\<close>

definition small_limiter :: "nat limiter" where
  "small_limiter = RateLimiter 100 2 500"

definition refill_events :: "nat limiter_event list" where
  "refill_events =
     [Enqueue 0 ''a1'' 1, Enqueue 0 ''a1'' 2, Enqueue 0 ''a1'' 3, Enqueue 0 ''a1'' 4,
      Enqueue 0 ''a1'' 5, TaskSettled ''a1'', WorkTick ''a1'', TaskSettled ''a1'', WorkTick ''a1'',
      Refill 603, TaskSettled ''a1'', WorkTick ''a1'',
      Refill 1800, TaskSettled ''a1'', WorkTick ''a1'']"

section \<open>Properties of the JID normaliser\<close>

lemma set_trim_subset: "set (trim s) \<subseteq> set s"
  unfolding trim_def by (auto dest!: set_dropWhileD)

lemma filter_dropWhile_disjoint:
  "(\<And>x. Q x \<Longrightarrow> \<not> P x) \<Longrightarrow> filter P (dropWhile Q xs) = filter P xs"
  by (induction xs) auto

lemma space_not_digit: "is_space c \<Longrightarrow> \<not> is_digit c"
  by (auto simp: is_space_def is_digit_def)

lemma digits_trim: "normalizeDigits (trim s) = normalizeDigits s"
proof -
  have "filter is_digit (trim s) = rev (filter is_digit (dropWhile is_space (rev (dropWhile is_space s))))"
    by (simp add: trim_def rev_filter)
  also have "\<dots> = rev (filter is_digit (rev (dropWhile is_space s)))"
    by (simp add: filter_dropWhile_disjoint space_not_digit)
  also have "\<dots> = filter is_digit (dropWhile is_space s)"
    by (simp add: rev_filter)
  also have "\<dots> = filter is_digit s"
    by (simp add: filter_dropWhile_disjoint space_not_digit)
  finally show ?thesis by (simp add: normalizeDigits_def)
qed

lemma digits_strip_plus: "normalizeDigits (strip_plus v) = normalizeDigits v"
  by (cases v) (auto simp: strip_plus_def normalizeDigits_def is_digit_def)

lemma strip_plus_trim_digits:
  "normalizeDigits (strip_plus (trim s)) = normalizeDigits (strip_plus s)"
  by (simp add: digits_strip_plus digits_trim)

lemma endsWith_at_in_set:
  assumes "endsWith v (CHR ''@'' # p)"
  shows "CHR ''@'' \<in> set v"
proof -
  from assms have "drop (length v - length (CHR ''@'' # p)) v = CHR ''@'' # p"
    by (simp add: endsWith_def)
  then have "CHR ''@'' \<in> set (drop (length v - length (CHR ''@'' # p)) v)"
    by simp
  then show ?thesis by (rule in_set_dropD)
qed

lemma normalizeJid_no_at:
  assumes "input \<noteq> []" and "CHR ''@'' \<notin> set input"
  shows "normalizeJid input =
    (case ensureCountryCode (normalizeDigits (strip_plus input)) of
       Inl e \<Rightarrow> Inl e | Inr n \<Rightarrow> Inr (n @ ''@c.us''))"
proof -
  have no_at: "CHR ''@'' \<notin> set (trim input)"
    using assms(2) set_trim_subset by blast
  have g: "\<not> endsWith (trim input) ''@g.us''"
    using no_at endsWith_at_in_set[of "trim input" "''g.us''"] by blast
  have c: "\<not> endsWith (trim input) ''@c.us''"
    using no_at endsWith_at_in_set[of "trim input" "''c.us''"] by blast
  show ?thesis
    unfolding normalizeJid_def Let_def
    by (simp only: assms(1) g c no_at if_False strip_plus_trim_digits)
qed

lemma digit_chars: "char_of ` {48, 49, 50, 51, 52, 53, 54, 55, 56, 57 :: nat} = set ''0123456789''"
proof -
  have "map char_of [48, 49, 50, 51, 52, 53, 54, 55, 56, 57 :: nat] = ''0123456789''"
    by code_simp
  then have "set (map char_of [48, 49, 50, 51, 52, 53, 54, 55, 56, 57 :: nat]) = set ''0123456789''"
    by (rule arg_cong)
  then show ?thesis
    by (simp only: list.set_map list.set)
qed

lemma is_digit_iff: "is_digit c \<longleftrightarrow> c \<in> set ''0123456789''"
proof
  assume "is_digit c"
  then have "of_char c \<in> {48, 49, 50, 51, 52, 53, 54, 55, 56, 57 :: nat}"
    unfolding is_digit_def by simp arith
  then have "char_of (of_char c :: nat) \<in> char_of ` {48, 49, 50, 51, 52, 53, 54, 55, 56, 57 :: nat}"
    by (rule imageI)
  then have "char_of (of_char c :: nat) \<in> set ''0123456789''"
    unfolding digit_chars .
  then show "c \<in> set ''0123456789''"
    by (simp only: char_of_char)
next
  assume "c \<in> set ''0123456789''"
  then show "is_digit c"
    by (auto simp: is_digit_def)
qed

lemma normalizeDigits_filter: "normalizeDigits s = filter (\<lambda>c. c \<in> set ''0123456789'') s"
  unfolding normalizeDigits_def by (rule filter_cong) (simp_all only: is_digit_iff)

lemma ensureCountryCode_cases:
  "ensureCountryCode d =
     (if take 2 d = ''62'' then Inr d
      else if take 1 d = ''0'' then Inr (''62'' @ tl d)
      else if take 1 d = ''8'' then Inr (''62'' @ d)
      else Inl (plain_error ''Unsupported phone number format''))"
proof -
  have l2: "length ''62'' = 2" and l0: "length ''0'' = 1" and l8: "length ''8'' = 1"
    by simp_all
  have d1: "drop 1 d = tl d"
    by (simp add: drop_Suc)
  show ?thesis
    unfolding ensureCountryCode_def startsWith_def l2 l0 l8 d1 by (rule refl)
qed

text \<open>
  Claim C7. For every non-empty input string without an at sign, let \<open>d\<close> be the
  input with one leading plus sign and then every non-digit removed. If \<open>d\<close> starts
  with 62 it is kept, a leading 0 is replaced by 62, a leading 8 gets 62 put in front,
  anything else fails with \<open>Unsupported phone number format\<close>; on success
  \<open>@c.us\<close> is appended. So 08123, +628123 and 8123 all give 628123@c.us, and 7123
  fails.
\<close>

theorem normalizeJid_phone_numbers:
  "(\<forall>input. input \<noteq> [] \<and> CHR ''@'' \<notin> set input \<longrightarrow>
      normalizeJid input =
        (let d = filter (\<lambda>c. c \<in> set ''0123456789'') (strip_plus input)
         in if take 2 d = ''62'' then Inr (d @ ''@c.us'')
            else if take 1 d = ''0'' then Inr (''62'' @ tl d @ ''@c.us'')
            else if take 1 d = ''8'' then Inr (''62'' @ d @ ''@c.us'')
            else Inl (plain_error ''Unsupported phone number format'')))
   \<and> normalizeJid ''08123'' = Inr ''628123@c.us''
   \<and> normalizeJid ''+628123'' = Inr ''628123@c.us''
   \<and> normalizeJid ''8123'' = Inr ''628123@c.us''
   \<and> normalizeJid ''7123'' = Inl (plain_error ''Unsupported phone number format'')"
proof (intro conjI allI impI)
  fix input :: string
  assume "input \<noteq> [] \<and> CHR ''@'' \<notin> set input"
  then have "normalizeJid input =
    (case ensureCountryCode (normalizeDigits (strip_plus input)) of
       Inl e \<Rightarrow> Inl e | Inr n \<Rightarrow> Inr (n @ ''@c.us''))"
    by (simp add: normalizeJid_no_at)
  then show "normalizeJid input =
        (let d = filter (\<lambda>c. c \<in> set ''0123456789'') (strip_plus input)
         in if take 2 d = ''62'' then Inr (d @ ''@c.us'')
            else if take 1 d = ''0'' then Inr (''62'' @ tl d @ ''@c.us'')
            else if take 1 d = ''8'' then Inr (''62'' @ d @ ''@c.us'')
            else Inl (plain_error ''Unsupported phone number format''))"
    unfolding ensureCountryCode_cases normalizeDigits_filter Let_def
    by (simp only: sum.case append_assoc if_distrib[of "case_sum Inl (\<lambda>n. Inr (n @ ''@c.us''))"] cong: if_cong)
next
  show "normalizeJid ''08123'' = Inr ''628123@c.us''"
    by (simp add: normalizeJid_def trim_def is_space_def endsWith_def ensureCountryCode_def
        startsWith_def normalizeDigits_def strip_plus_def is_digit_def)
next
  show "normalizeJid ''+628123'' = Inr ''628123@c.us''"
    by (simp add: normalizeJid_def trim_def is_space_def endsWith_def ensureCountryCode_def
        startsWith_def normalizeDigits_def strip_plus_def is_digit_def)
next
  show "normalizeJid ''8123'' = Inr ''628123@c.us''"
    by (simp add: normalizeJid_def trim_def is_space_def endsWith_def ensureCountryCode_def
        startsWith_def normalizeDigits_def strip_plus_def is_digit_def)
next
  show "normalizeJid ''7123'' = Inl (plain_error ''Unsupported phone number format'')"
    by (simp add: normalizeJid_def trim_def is_space_def endsWith_def ensureCountryCode_def
        startsWith_def normalizeDigits_def strip_plus_def is_digit_def)
qed

theorem normalizeJid_phone_numbers_witness:
  "''+62 812-3456'' \<noteq> [] \<and> CHR ''@'' \<notin> set ''+62 812-3456''
   \<and> normalizeJid ''+62 812-3456'' = Inr ''628123456@c.us''"
proof -
  have h: "''+62 812-3456'' \<noteq> [] \<and> CHR ''@'' \<notin> set ''+62 812-3456''"
    by simp
  from normalizeJid_phone_numbers have "\<forall>input. input \<noteq> [] \<and> CHR ''@'' \<notin> set input \<longrightarrow>
      normalizeJid input =
        (let d = filter (\<lambda>c. c \<in> set ''0123456789'') (strip_plus input)
         in if take 2 d = ''62'' then Inr (d @ ''@c.us'')
            else if take 1 d = ''0'' then Inr (''62'' @ tl d @ ''@c.us'')
            else if take 1 d = ''8'' then Inr (''62'' @ d @ ''@c.us'')
            else Inl (plain_error ''Unsupported phone number format''))"
    by (rule conjunct1)
  then have "normalizeJid ''+62 812-3456'' =
        (let d = filter (\<lambda>c. c \<in> set ''0123456789'') (strip_plus ''+62 812-3456'')
         in if take 2 d = ''62'' then Inr (d @ ''@c.us'')
            else if take 1 d = ''0'' then Inr (''62'' @ tl d @ ''@c.us'')
            else if take 1 d = ''8'' then Inr (''62'' @ d @ ''@c.us'')
            else Inl (plain_error ''Unsupported phone number format''))"
    using h by blast
  then have "normalizeJid ''+62 812-3456'' = Inr ''628123456@c.us''"
    by (simp add: strip_plus_def)
  with h show ?thesis by simp
qed

section \<open>Properties of reply extraction\<close>

lemma first_reply_find:
  "first_reply cs = (case find nonblank_string cs of Some (JStr s) \<Rightarrow> Some (trim s) | _ \<Rightarrow> None)"
  by (induction cs rule: first_reply.induct) simp_all

lemma path_lookup_undefined: "ks \<noteq> [] \<Longrightarrow> path_lookup JUndefined ks = JUndefined"
  by (cases ks) simp_all

lemma opt_prop_path: "opt_prop v k = path_lookup v [k]"
  by (cases v) (simp_all split: option.split)

lemma get_prop_path: "get_prop v k = path_lookup v [k]"
  by (cases v) (simp_all split: option.split)

lemma path_lookup_two: "path_lookup (path_lookup v [k]) [k'] = path_lookup v [k, k']"
  by (cases v) (simp_all split: option.split)

lemma candidates_paths:
  "[get_prop v ''reply'', get_prop v ''response'',
    opt_prop (get_prop v ''result'') ''reply'',
    opt_prop (get_prop v ''result'') ''response'',
    get_prop v ''output''] = map (path_lookup v) reply_paths"
  by (simp add: reply_paths_def opt_prop_path get_prop_path path_lookup_two)

lemma falsy_no_candidates:
  assumes "\<not> truthy v"
  shows "find nonblank_string (map (path_lookup v) reply_paths) = None"
  using assms by (cases v) (simp_all add: reply_paths_def)

text \<open>
  Claim C6. For every response body, \<open>extractReply\<close> probes \<open>reply\<close>,
  \<open>response\<close>, \<open>result.reply\<close>, \<open>result.response\<close> and \<open>output\<close> in this
  order and returns the trimmed value of the first candidate that is a string and
  non-empty after trimming; it returns null when no candidate qualifies or the body
  is absent.
\<close>

theorem extractReply_probes_in_order: "extractReply v = spec_reply v"
proof (cases "truthy v")
  case True
  then show ?thesis
    by (simp only: extractReply_def spec_reply_def candidates_paths first_reply_find simp_thms if_False)
next
  case False
  then show ?thesis
    by (simp add: extractReply_def spec_reply_def falsy_no_candidates)
qed

theorem extractReply_probes_in_order_witness:
  "extractReply (JObj [(''reply'', JStr ''  ''), (''result'', JObj [(''response'', JStr '' hi '')]),
       (''output'', JStr ''late'')]) = Some ''hi''
   \<and> extractReply (JObj [(''reply'', JNum 3)]) = None
   \<and> extractReply JUndefined = None"
  unfolding extractReply_probes_in_order
  by (simp add: spec_reply_def reply_paths_def trim_def is_space_def)

section \<open>Properties of double arithmetic\<close>

text \<open>
  Some values of \<open>double\<close>: the numbers \<open>0.1\<close>, \<open>0.1 + 0.2\<close> (which is
  \<open>0.30000000000000004\<close>), \<open>603 / 60000\<close> and \<open>-1 / 3\<close> of JavaScript, and the
  two ties \<open>2 ^ 53 + 1\<close> and \<open>2 ^ 53 + 3\<close>, rounded to the even significand.
\<close>

lemma double_examples:
  "double (1 / 10) = 3602879701896397 / 36028797018963968"
  "double (double (1 / 10) + double (2 / 10)) = 1351079888211149 / 4503599627370496"
  "double (603 / 60000) = 2896715280324703 / 288230376151711744"
  "double (- (1 / 3)) = - (6004799503160661 / 18014398509481984)"
  "double 9007199254740993 = 9007199254740992"
  "double 9007199254740995 = 9007199254740996"
  by code_simp+

lemma bitlen_rat_bounds:
  assumes "0 < p"
  shows "2 powi (bitlen p - 1) \<le> rat_of_int p" and "rat_of_int p < 2 powi (bitlen p)"
proof -
  from bitlen_bounds[OF assms] have a: "2 ^ nat (bitlen p - 1) \<le> p" and b: "p < 2 ^ nat (bitlen p)"
    by simp_all
  from assms have pos: "1 \<le> bitlen p" by (auto simp: bitlen_alt_def)
  from a have "rat_of_int (2 ^ nat (bitlen p - 1)) \<le> rat_of_int p" by (simp only: of_int_le_iff)
  then show "2 powi (bitlen p - 1) \<le> rat_of_int p" using pos by (simp add: power_int_def)
  from b have "rat_of_int p < rat_of_int (2 ^ nat (bitlen p))" by (simp only: of_int_less_iff)
  then show "rat_of_int p < 2 powi (bitlen p)" using pos by (simp add: power_int_def)
qed

lemma powi2_add: "(2::rat) powi (a + b) = 2 powi a * 2 powi b"
  by (rule power_int_add) simp

lemma powi2_le: "a \<le> b \<Longrightarrow> (2::rat) powi a \<le> 2 powi b"
  by (rule power_int_increasing) simp_all

text \<open>\<open>exponent x\<close> is the binary exponent of a positive \<open>x\<close>.\<close>

lemma exponent_bounds:
  assumes "0 < x"
  shows "2 powi (exponent x) \<le> x \<and> x < 2 powi (exponent x + 1)"
proof -
  obtain p q where pq: "quotient_of x = (p, q)" by (cases "quotient_of x")
  then have q: "0 < q" by (rule quotient_of_denom_pos)
  from pq have x: "x = rat_of_int p / rat_of_int q" by (rule quotient_of_div)
  from assms x q have p: "0 < p" by (simp add: zero_less_divide_iff)
  let ?k = "bitlen p - bitlen q"
  note bp = bitlen_rat_bounds[OF p] and bq = bitlen_rat_bounds[OF q]
  have qpos: "0 < rat_of_int q" using q by simp
  have "x * rat_of_int q < 2 powi (bitlen p)" using bp(2) x qpos by simp
  also have "\<dots> = 2 powi (?k + 1) * 2 powi (bitlen q - 1)"
    by (simp flip: powi2_add)
  also have "\<dots> \<le> 2 powi (?k + 1) * rat_of_int q"
    using bq(1) by (intro mult_left_mono) simp_all
  finally have up: "x < 2 powi (?k + 1)" using qpos by simp
  have "2 powi (?k - 1) * rat_of_int q < 2 powi (?k - 1) * 2 powi (bitlen q)"
    using bq(2) by (intro mult_strict_left_mono) simp_all
  also have "\<dots> = 2 powi (bitlen p - 1)" by (simp flip: powi2_add)
  also have "\<dots> \<le> x * rat_of_int q" using bp(1) x qpos by simp
  finally have lo: "2 powi (?k - 1) < x" using qpos by simp
  have e: "exponent x = (if 2 powi ?k \<le> x then ?k else ?k - 1)"
    using assms pq by (simp add: exponent_def Let_def)
  show ?thesis
  proof (cases "2 powi ?k \<le> x")
    case True
    with e up show ?thesis by simp
  next
    case False
    with e lo show ?thesis by simp
  qed
qed

lemma exponent_mono:
  assumes "0 < x" and "x \<le> y"
  shows "exponent x \<le> exponent y"
proof (rule ccontr)
  assume "\<not> exponent x \<le> exponent y"
  then have "exponent y + 1 \<le> exponent x" by simp
  then have "(2::rat) powi (exponent y + 1) \<le> 2 powi (exponent x)" by (rule powi2_le)
  also have "\<dots> \<le> x" using exponent_bounds[OF assms(1)] by simp
  also note assms(2)
  also have "y < 2 powi (exponent y + 1)" using exponent_bounds[of y] assms by simp
  finally show False by simp
qed

lemma ulp_pos: "0 < ulp x"
  by (simp add: ulp_def)

text \<open>The doubles at a larger number are among the multiples of \<open>ulp\<close> at a smaller one.\<close>

lemma ulp_mono:
  assumes "0 < x" and "x \<le> y"
  shows "\<exists>k::nat. ulp y = ulp x * 2 ^ k"
proof -
  let ?a = "max (exponent x - 52) (- 1074)" and ?b = "max (exponent y - 52) (- 1074)"
  from exponent_mono[OF assms] have le: "?a \<le> ?b" by simp
  have "(2::rat) powi ?b = 2 powi (?a + (?b - ?a))" by simp
  also have "\<dots> = 2 powi ?a * 2 powi (?b - ?a)" by (rule powi2_add)
  also have "(2::rat) powi (?b - ?a) = 2 ^ nat (?b - ?a)" using le by (simp add: power_int_def)
  finally show ?thesis unfolding ulp_def by blast
qed

lemma roundTiesToEven_le:
  assumes "z \<le> rat_of_int m"
  shows "roundTiesToEven z \<le> m"
proof -
  from assms have f: "\<lfloor>z\<rfloor> \<le> m" by (simp add: floor_le_iff)
  show ?thesis
  proof (cases "z - of_int \<lfloor>z\<rfloor> < 1 / 2")
    case True
    with f show ?thesis by (simp add: roundTiesToEven_def Let_def)
  next
    case False
    then have "of_int \<lfloor>z\<rfloor> < z" by simp
    with assms have "rat_of_int \<lfloor>z\<rfloor> < rat_of_int m" by simp
    then have "\<lfloor>z\<rfloor> < m" by (simp only: of_int_less_iff)
    then show ?thesis by (simp add: roundTiesToEven_def Let_def)
  qed
qed

lemma roundTiesToEven_nonneg:
  assumes "0 \<le> z"
  shows "0 \<le> roundTiesToEven z"
proof -
  from assms have "0 \<le> \<lfloor>z\<rfloor>" by simp
  then show ?thesis by (simp add: roundTiesToEven_def Let_def)
qed

lemma double_nonneg:
  assumes "0 \<le> x"
  shows "0 \<le> double x"
proof (cases "x = 0")
  case True
  then show ?thesis by (simp add: double_def)
next
  case False
  from assms ulp_pos[of x] have "0 \<le> x / ulp x" by simp
  then have "0 \<le> roundTiesToEven (x / ulp x)" by (rule roundTiesToEven_nonneg)
  with ulp_pos[of x] False show ?thesis by (simp add: double_def)
qed

text \<open>Rounding does not cross a double: below the double \<open>y\<close>, the result is at most \<open>y\<close>.\<close>

lemma double_le:
  assumes "0 \<le> x" and "x \<le> y" and "double y = y"
  shows "double x \<le> y"
proof (cases "x = 0")
  case True
  with assms show ?thesis by (simp add: double_def)
next
  case False
  with assms have x: "0 < x" and y: "y \<noteq> 0" by simp_all
  define m where "m = roundTiesToEven (y / ulp y)"
  from assms(3) y have ym: "y = ulp y * of_int m" by (simp add: double_def m_def)
  from ulp_mono[OF x assms(2)] obtain k :: nat where k: "ulp y = ulp x * 2 ^ k" by blast
  have yx: "y / ulp x = rat_of_int (2 ^ k * m)"
    using ulp_pos[of x] by (subst ym) (simp add: k)
  from assms(2) ulp_pos[of x] have "x / ulp x \<le> y / ulp x" by (simp add: divide_right_mono)
  then have "roundTiesToEven (x / ulp x) \<le> 2 ^ k * m" unfolding yx by (rule roundTiesToEven_le)
  then have "rat_of_int (roundTiesToEven (x / ulp x)) \<le> rat_of_int (2 ^ k * m)"
    by (simp only: of_int_le_iff)
  then have "ulp x * rat_of_int (roundTiesToEven (x / ulp x)) \<le> ulp x * rat_of_int (2 ^ k * m)"
    using ulp_pos[of x] by (intro mult_left_mono) simp_all
  also have "\<dots> = y" using yx ulp_pos[of x] by (simp add: field_simps)
  finally show ?thesis using False by (simp add: double_def)
qed

lemma exponent_less:
  assumes "0 < y" and "y < 2 powi k"
  shows "exponent y < k"
proof (rule ccontr)
  assume "\<not> exponent y < k"
  then have "k \<le> exponent y" by simp
  then have "(2::rat) powi k \<le> 2 powi (exponent y)" by (rule powi2_le)
  also have "\<dots> \<le> y" using exponent_bounds[OF assms(1)] by simp
  finally show False using assms(2) by simp
qed

lemma roundTiesToEven_of_int: "roundTiesToEven (rat_of_int m) = m"
  by (simp add: roundTiesToEven_def)

text \<open>A number is a double if it is a multiple of its own \<open>ulp\<close>.\<close>

lemma double_fixed:
  assumes "y / ulp y = rat_of_int m"
  shows "double y = y"
proof (cases "y = 0")
  case True
  then show ?thesis by (simp add: double_def)
next
  case False
  from assms have "roundTiesToEven (y / ulp y) = m" by (simp add: roundTiesToEven_of_int)
  moreover from assms ulp_pos[of y] have "y = ulp y * rat_of_int m" by (simp add: field_simps)
  ultimately show ?thesis using False by (simp add: double_def)
qed

text \<open>The result of rounding is a double.\<close>

lemma double_idem:
  assumes "0 \<le> x"
  shows "double (double x) = double x"
proof (cases "double x = 0")
  case True
  then show ?thesis by (simp add: double_def)
next
  case False
  then have x0: "x \<noteq> 0" by (auto simp: double_def)
  with assms have x: "0 < x" by simp
  define a where "a = max (exponent x - 52) (- 1074)"
  define n where "n = roundTiesToEven (x / ulp x)"
  define y where "y = double x"
  define b where "b = max (exponent y - 52) (- 1074)"
  have u: "ulp x = 2 powi a" by (simp add: ulp_def a_def)
  have y: "y = 2 powi a * rat_of_int n" using x0 by (simp add: y_def double_def n_def u)
  from double_nonneg[OF assms] False have ypos: "0 < y" by (simp add: y_def)
  have a1: "exponent x + 1 \<le> a + 53" and a2: "- 1074 \<le> a" by (simp_all add: a_def)
  have "x < 2 powi (exponent x + 1)" using exponent_bounds[OF x] by simp
  also have "\<dots> \<le> 2 powi (a + 53)" using a1 by (rule powi2_le)
  also have "\<dots> = 2 powi a * 2 ^ 53" by (simp add: powi2_add)
  finally have "x / ulp x \<le> rat_of_int (2 ^ 53)" by (simp add: u field_simps)
  then have n53: "n \<le> 2 ^ 53" unfolding n_def by (rule roundTiesToEven_le)
  have "0 < (2::rat) powi a" by simp
  with ypos y have "0 < rat_of_int n" by (simp add: zero_less_mult_iff)
  then have npos: "0 < n" by simp
  have ub: "ulp y = 2 powi b" by (simp add: ulp_def b_def)
  have "y / 2 powi b = rat_of_int n * 2 powi (a - b)"
    by (simp add: y power_int_diff)
  then have yb: "y / ulp y = rat_of_int n * 2 powi (a - b)" by (simp only: ub)
  show ?thesis
  proof (cases "n = 2 ^ 53")
    case True
    then have "y = 2 powi a * 2 powi 53" by (simp add: y)
    also have "\<dots> = 2 powi (a + 53)" by (simp only: powi2_add)
    also have "\<dots> < 2 powi (a + 54)" by (rule power_int_strict_increasing) simp_all
    finally have "exponent y < a + 54" by (rule exponent_less[OF ypos])
    with a2 have "b \<le> a + 1" by (simp add: b_def)
    then consider "b \<le> a" | "b = a + 1" by linarith
    then have "\<exists>m. y / ulp y = rat_of_int m"
    proof cases
      case 1
      then have "(2::rat) powi (a - b) = rat_of_int (2 ^ nat (a - b))" by (simp add: power_int_def)
      then have "y / ulp y = rat_of_int (n * 2 ^ nat (a - b))" by (simp add: yb)
      then show ?thesis by blast
    next
      case 2
      then have "y / ulp y = rat_of_int (2 ^ 52)" by (simp add: yb True)
      then show ?thesis by blast
    qed
    then obtain m where "y / ulp y = rat_of_int m" by blast
    then show ?thesis unfolding y_def[symmetric] by (rule double_fixed)
  next
    case False
    with n53 have "n < 2 ^ 53" by simp
    then have "rat_of_int n < rat_of_int (2 ^ 53)" by (simp only: of_int_less_iff)
    then have "y < 2 powi a * 2 ^ 53" unfolding y by (intro mult_strict_left_mono) simp_all
    also have "\<dots> = 2 powi (a + 53)" by (simp add: powi2_add)
    finally have "exponent y < a + 53" by (rule exponent_less[OF ypos])
    with a2 have "b \<le> a" by (simp add: b_def)
    then have "(2::rat) powi (a - b) = rat_of_int (2 ^ nat (a - b))" by (simp add: power_int_def)
    then have "y / ulp y = rat_of_int (n * 2 ^ nat (a - b))" by (simp add: yb)
    then show ?thesis unfolding y_def[symmetric] by (rule double_fixed)
  qed
qed

lemma exponent_ge:
  assumes "0 < y" and "2 powi k \<le> y"
  shows "k \<le> exponent y"
proof (rule ccontr)
  assume "\<not> k \<le> exponent y"
  then have "exponent y + 1 \<le> k" by simp
  then have "(2::rat) powi (exponent y + 1) \<le> 2 powi k" by (rule powi2_le)
  also note assms(2)
  finally show False using exponent_bounds[OF assms(1)] by simp
qed

lemma roundTiesToEven_nearest: "\<bar>rat_of_int (roundTiesToEven z) - z\<bar> \<le> 1 / 2"
proof -
  have "rat_of_int \<lfloor>z\<rfloor> \<le> z" and "z < rat_of_int \<lfloor>z\<rfloor> + 1" by linarith+
  then show ?thesis by (auto simp: roundTiesToEven_def Let_def abs_le_iff)
qed

text \<open>Rounding moves a number by at most half an \<open>ulp\<close>.\<close>

lemma double_nearest: "\<bar>double x - x\<bar> \<le> ulp x / 2"
proof (cases "x = 0")
  case True
  then show ?thesis using ulp_pos[of x] by (simp add: double_def)
next
  case False
  let ?n = "rat_of_int (roundTiesToEven (x / ulp x))"
  have "double x - x = ulp x * (?n - x / ulp x)"
    using False ulp_pos[of x] by (simp add: double_def field_simps)
  then have "\<bar>double x - x\<bar> = ulp x * \<bar>?n - x / ulp x\<bar>"
    using ulp_pos[of x] by (simp add: abs_mult)
  also have "\<dots> \<le> ulp x * (1 / 2)"
    using ulp_pos[of x] roundTiesToEven_nearest[of "x / ulp x"] by (intro mult_left_mono) simp_all
  finally show ?thesis by simp
qed

text \<open>Up to \<open>2 ^ 53\<close>, taking 1 off a double that is at least 1 is exact.\<close>

lemma double_minus_one:
  assumes "double t = t" and "1 \<le> t" and "t \<le> 2 ^ 53"
  shows "double (t - 1) = t - 1"
proof (cases "t = 1")
  case True
  then show ?thesis by (simp add: double_def)
next
  case False
  with assms(2) have x: "0 < t - 1" and t: "0 < t" by simp_all
  define m where "m = roundTiesToEven (t / ulp t)"
  define a where "a = max (exponent t - 52) (- 1074)"
  define b where "b = max (exponent (t - 1) - 52) (- 1074)"
  from assms(1) t have tm: "t = 2 powi a * rat_of_int m"
    by (simp add: double_def m_def ulp_def a_def)
  have "(2::rat) powi 0 \<le> t" using assms(2) by simp
  with t have "0 \<le> exponent t" by (rule exponent_ge)
  then have a52: "- 52 \<le> a" by (simp add: a_def)
  have "t - 1 < 2 ^ 53" using assms(3) by simp
  then have "t - 1 < 2 powi 53" by simp
  with x have "exponent (t - 1) < 53" by (rule exponent_less)
  then have b0: "b \<le> 0" by (simp add: b_def)
  have "exponent (t - 1) \<le> exponent t" using x by (rule exponent_mono) simp
  then have ba: "b \<le> a" by (simp add: a_def b_def)
  have ub: "ulp (t - 1) = 2 powi b" by (simp add: ulp_def b_def)
  have 1: "(2::rat) powi (a - b) = rat_of_int (2 ^ nat (a - b))" using ba by (simp add: power_int_def)
  have 2: "(2::rat) powi (- b) = rat_of_int (2 ^ nat (- b))" using b0 by (simp add: power_int_def)
  have "(t - 1) / 2 powi b = rat_of_int m * 2 powi (a - b) - 2 powi (- b)"
    by (subst tm) (simp add: power_int_diff power_int_minus field_simps)
  also have "\<dots> = rat_of_int (m * 2 ^ nat (a - b) - 2 ^ nat (- b))"
    by (simp only: 1 2 of_int_mult of_int_diff)
  finally have "(t - 1) / ulp (t - 1) = rat_of_int (m * 2 ^ nat (a - b) - 2 ^ nat (- b))"
    by (simp only: ub)
  then show ?thesis by (rule double_fixed)
qed

lemma roundTiesToEven_ge:
  assumes "rat_of_int m \<le> z"
  shows "m \<le> roundTiesToEven z"
proof -
  from assms have "m \<le> \<lfloor>z\<rfloor>" by (simp add: le_floor_iff)
  then show ?thesis by (simp add: roundTiesToEven_def Let_def)
qed

text \<open>Nor does rounding cross a double from above.\<close>

lemma double_ge:
  assumes "0 \<le> y" and "y \<le> x" and "double y = y"
  shows "y \<le> double x"
proof (cases "y = 0")
  case True
  with assms show ?thesis by (simp add: double_nonneg)
next
  case False
  with assms have y: "0 < y" and x: "0 < x" by simp_all
  define a where "a = max (exponent y - 52) (- 1074)"
  define b where "b = max (exponent x - 52) (- 1074)"
  define m where "m = roundTiesToEven (y / ulp y)"
  have uy: "ulp y = 2 powi a" and ux: "ulp x = 2 powi b" by (simp_all add: ulp_def a_def b_def)
  from assms(3) False have ym: "y = 2 powi a * rat_of_int m" by (simp add: double_def m_def uy)
  have dx: "double x = 2 powi b * rat_of_int (roundTiesToEven (x / 2 powi b))"
    using x by (simp add: double_def ux)
  from exponent_mono[OF y assms(2)] have ab: "a \<le> b" by (simp add: a_def b_def)
  show ?thesis
  proof (cases "a = b")
    case True
    have "rat_of_int m = y / 2 powi b" by (simp add: ym True)
    also have "\<dots> \<le> x / 2 powi b" using assms(2) by (simp add: divide_right_mono)
    finally have "m \<le> roundTiesToEven (x / 2 powi b)" by (rule roundTiesToEven_ge)
    then have "rat_of_int m \<le> rat_of_int (roundTiesToEven (x / 2 powi b))" by (simp only: of_int_le_iff)
    then have "2 powi b * rat_of_int m \<le> 2 powi b * rat_of_int (roundTiesToEven (x / 2 powi b))"
      by (intro mult_left_mono) simp_all
    then show ?thesis by (simp add: dx ym True)
  next
    case False
    with ab have lt: "a < b" by simp
    then have b52: "b = exponent x - 52" and e: "exponent y < exponent x"
      by (auto simp: a_def b_def)
    have "rat_of_int (2 ^ 52) = 2 powi (exponent x) / 2 powi b"
      by (simp add: b52 power_int_diff)
    also have "\<dots> \<le> x / 2 powi b"
      using exponent_bounds[OF x] by (simp add: divide_right_mono)
    finally have "2 ^ 52 \<le> roundTiesToEven (x / 2 powi b)" by (rule roundTiesToEven_ge)
    then have "rat_of_int (2 ^ 52) \<le> rat_of_int (roundTiesToEven (x / 2 powi b))"
      by (simp only: of_int_le_iff)
    then have "2 powi b * rat_of_int (2 ^ 52) \<le> double x"
      unfolding dx by (intro mult_left_mono) simp_all
    moreover have "2 powi b * rat_of_int (2 ^ 52) = 2 powi (exponent x)"
      by (simp add: b52 power_int_diff)
    moreover have "y < 2 powi (exponent y + 1)" using exponent_bounds[OF y] by simp
    moreover have "(2::rat) powi (exponent y + 1) \<le> 2 powi (exponent x)"
      using e by (intro powi2_le) simp
    ultimately show ?thesis by simp
  qed
qed

section \<open>Properties of the rate limiter\<close>

lemma work_tokens:
  "tokens (work s) = (if queue s \<noteq> [] \<and> 1 \<le> tokens s then double (tokens s - 1) else tokens s)"
  by (simp add: work_def split: list.split)

lemma work_ok:
  assumes "double b = b" and "tokens_ok b s"
  shows "tokens_ok b (work s)"
proof (cases "queue s \<noteq> [] \<and> 1 \<le> tokens s")
  case True
  with assms(2) have lo: "0 \<le> tokens s - 1" and hi: "tokens s - 1 \<le> b"
    by (simp_all add: tokens_ok_def)
  from lo have "0 \<le> double (tokens s - 1)" by (rule double_nonneg)
  moreover from lo hi assms(1) have "double (tokens s - 1) \<le> b" by (rule double_le)
  moreover from lo have "double (double (tokens s - 1)) = double (tokens s - 1)" by (rule double_idem)
  ultimately show ?thesis using True by (simp add: tokens_ok_def work_tokens)
next
  case False
  with assms(2) show ?thesis by (auto simp: tokens_ok_def work_tokens)
qed

lemma processQueue_state_ok:
  assumes "double b = b" and "tokens_ok b s"
  shows "tokens_ok b (processQueue_state s)"
proof (cases "processing s")
  case True
  with assms(2) show ?thesis by (simp add: processQueue_state_def)
next
  case False
  from assms(2) have "tokens_ok b (s\<lparr>processing := True\<rparr>)" by (simp add: tokens_ok_def)
  with assms(1) have "tokens_ok b (work (s\<lparr>processing := True\<rparr>))" by (rule work_ok)
  with False show ?thesis by (simp add: processQueue_state_def)
qed

lemma refill_state_ok:
  assumes "0 \<le> burst L" and "double (burst L) = burst L" and "tokens_ok (burst L) s"
  shows "tokens_ok (burst L) (refill_state L now s)"
proof -
  let ?r = "double (double (double (rat_of_int (now - lastRefill s)) / 60000) * tokensPerMinute L)"
  show ?thesis
  proof (cases "1 \<le> ?r")
    case True
    let ?s = "s\<lparr>tokens := min (burst L) (double (tokens s + ?r)), lastRefill := now\<rparr>"
    from True assms(3) have "0 \<le> tokens s + ?r" by (simp add: tokens_ok_def)
    then have "0 \<le> double (tokens s + ?r)"
      and "double (double (tokens s + ?r)) = double (tokens s + ?r)"
      by (rule double_nonneg, rule double_idem)
    with assms(1,2) have ok: "tokens_ok (burst L) ?s"
      by (simp add: tokens_ok_def min_def)
    with assms(2) have "tokens_ok (burst L) (processQueue_state ?s)" by (rule processQueue_state_ok)
    with ok True show ?thesis by (simp add: refill_state_def Let_def)
  next
    case False
    with assms(3) show ?thesis by (simp add: refill_state_def Let_def)
  qed
qed

lemma task_settled_ok: "tokens_ok b s \<Longrightarrow> tokens_ok b (task_settled s)"
  by (simp add: task_settled_def tokens_ok_def split: work_cont.split)

lemma work_tick_ok: "double b = b \<Longrightarrow> tokens_ok b s \<Longrightarrow> tokens_ok b (work_tick s)"
  by (simp add: work_tick_def work_ok split: work_cont.split)

lemma new_agent_state_ok:
  "0 \<le> burst L \<Longrightarrow> double (burst L) = burst L \<Longrightarrow> tokens_ok (burst L) (new_agent_state L now)"
  by (simp add: new_agent_state_def tokens_ok_def)

lemma getAgentState_ok:
  assumes "limiter_ok L"
  shows "limiter_ok (fst (getAgentState L now a))"
    and "tokens_ok (burst L) (snd (getAgentState L now a))"
    and "burst (fst (getAgentState L now a)) = burst L"
  using assms new_agent_state_ok[of L now]
  by (auto simp: limiter_ok_def getAgentState_def split: option.split)

lemma processQueue_ok:
  assumes "limiter_ok L"
  shows "limiter_ok (processQueue L now a)"
proof -
  obtain L' s where g: "getAgentState L now a = (L', s)" by (cases "getAgentState L now a")
  from getAgentState_ok[OF assms, of now a] g
  have 1: "limiter_ok L'" and 2: "tokens_ok (burst L) s" and 3: "burst L' = burst L" by simp_all
  from assms have d: "double (burst L) = burst L" by (simp add: limiter_ok_def)
  from d 2 have "tokens_ok (burst L) (processQueue_state s)" by (rule processQueue_state_ok)
  with 1 3 show ?thesis
    by (simp add: processQueue_def g limiter_ok_def)
qed

lemma enqueue_ok:
  assumes "limiter_ok L"
  shows "limiter_ok (fst (enqueue L now a job))"
proof -
  obtain L' s where g: "getAgentState L now a = (L', s)" by (cases "getAgentState L now a")
  from getAgentState_ok[OF assms, of now a] g
  have 1: "limiter_ok L'" and 2: "tokens_ok (burst L) s" and 3: "burst L' = burst L" by simp_all
  let ?L = "L'\<lparr>agents := (agents L')(a \<mapsto> s\<lparr>queue := queue s @ [job]\<rparr>)\<rparr>"
  from 1 2 3 have "limiter_ok ?L" by (simp add: limiter_ok_def tokens_ok_def)
  then have "limiter_ok (processQueue ?L now a)" by (rule processQueue_ok)
  with 1 show ?thesis by (simp add: enqueue_def g)
qed

lemma refillTokens_ok:
  assumes "limiter_ok L"
  shows "limiter_ok (refillTokens L now)"
  using assms refill_state_ok[of L _ now]
  by (auto simp: limiter_ok_def refillTokens_def)

lemma limiter_step_ok:
  assumes "limiter_ok L"
  shows "limiter_ok (limiter_step L ev)"
proof (cases ev)
  case (Enqueue now a job)
  with assms show ?thesis by (simp add: enqueue_ok)
next
  case (Refill now)
  with assms show ?thesis by (simp add: refillTokens_ok)
next
  case (TaskSettled a)
  with assms show ?thesis by (auto simp: limiter_ok_def task_settled_ok)
next
  case (WorkTick a)
  with assms show ?thesis by (auto simp: limiter_ok_def work_tick_ok)
qed

lemma limiter_run_ok: "limiter_ok L \<Longrightarrow> limiter_ok (limiter_run L evs)"
  unfolding limiter_run_def
  by (induction evs arbitrary: L) (simp_all add: limiter_step_ok)

lemma limiter_step_burst: "burst (limiter_step L ev) = burst L"
  by (cases ev) (auto simp: enqueue_def processQueue_def getAgentState_def refillTokens_def split: option.split prod.split)

lemma limiter_run_burst: "burst (limiter_run L evs) = burst L"
  unfolding limiter_run_def
  by (induction evs arbitrary: L) (simp_all add: limiter_step_burst)

lemma limiter_step_tokensPerMinute: "tokensPerMinute (limiter_step L ev) = tokensPerMinute L"
  by (cases ev) (auto simp: enqueue_def processQueue_def getAgentState_def refillTokens_def split: option.split prod.split)

lemma limiter_run_tokensPerMinute: "tokensPerMinute (limiter_run L evs) = tokensPerMinute L"
  unfolding limiter_run_def
  by (induction evs arbitrary: L) (simp_all add: limiter_step_tokensPerMinute)

lemma enqueue_fresh:
  assumes "agents L a = None" and "0 < queueLimit L" and "1 \<le> burst L"
  shows "enqueue L now a job =
    (L\<lparr>agents := (agents L)(a \<mapsto>
        \<lparr>tokens = double (burst L - 1), lastRefill = now, queue = [], processing = True,
         cont = AwaitTask job\<rparr>)\<rparr>, None)"
  using assms
  by (simp add: enqueue_def getAgentState_def new_agent_state_def processQueue_def
      processQueue_state_def work_def)

lemma enqueue_busy:
  assumes "agents L a = Some s" and "processing s" and "int (length (queue s)) < queueLimit L"
  shows "enqueue L now a job = (L\<lparr>agents := (agents L)(a \<mapsto> s\<lparr>queue := queue s @ [job]\<rparr>)\<rparr>, None)"
  using assms
  by (simp add: enqueue_def getAgentState_def processQueue_def processQueue_state_def)

lemma enqueue_full:
  assumes "agents L a = Some s" and "queueLimit L \<le> int (length (queue s))"
  shows "enqueue L now a job = (L, Some (RateLimitError ''Queue capacity reached''))"
  using assms
  by (simp add: enqueue_def getAgentState_def)

lemma limiter_step_queueLimit: "queueLimit (limiter_step L ev) = queueLimit L"
  by (cases ev) (auto simp: enqueue_def processQueue_def getAgentState_def refillTokens_def split: option.split prod.split)

lemma limiter_run_queueLimit: "queueLimit (limiter_run L evs) = queueLimit L"
  unfolding limiter_run_def
  by (induction evs arbitrary: L) (simp_all add: limiter_step_queueLimit)

lemma limiter_run_snoc: "limiter_run L (evs @ [ev]) = limiter_step (limiter_run L evs) ev"
  by (simp add: limiter_run_def)

lemma never_resolving_jobs:
  assumes "agents L a = None" and "1 \<le> burst L" and "0 < queueLimit L"
    and "tjs \<noteq> []" and "int (length tjs) \<le> queueLimit L + 1"
  shows "agents (limiter_run L (map (\<lambda>(t, j). Enqueue t a j) tjs)) a =
      Some \<lparr>tokens = double (burst L - 1), lastRefill = fst (hd tjs), queue = map snd (tl tjs),
        processing = True, cont = AwaitTask (snd (hd tjs))\<rparr>
    \<and> queueLimit (limiter_run L (map (\<lambda>(t, j). Enqueue t a j) tjs)) = queueLimit L"
  using assms(4,5)
proof (induction tjs rule: rev_induct)
  case Nil
  then show ?case by simp
next
  case (snoc x xs)
  obtain t j where x: "x = (t, j)" by (cases x)
  let ?run = "\<lambda>ys. limiter_run L (map (\<lambda>(t, j). Enqueue t a j) ys)"
  have step: "?run (xs @ [x]) = fst (enqueue (?run xs) t a j)"
    using x by (simp add: limiter_run_snoc)
  show ?case
  proof (cases "xs = []")
    case True
    then have "?run xs = L" by (simp add: limiter_run_def)
    with step have "?run (xs @ [x]) = fst (enqueue L t a j)" by simp
    with True x assms(1,2,3) show ?thesis
      by (simp add: enqueue_fresh)
  next
    case False
    from snoc.prems have len: "int (length xs) \<le> queueLimit L" by simp
    let ?s = "\<lparr>tokens = double (burst L - 1), lastRefill = fst (hd xs), queue = map snd (tl xs),
        processing = True, cont = AwaitTask (snd (hd xs))\<rparr>"
    from snoc.IH False len have IH: "agents (?run xs) a = Some ?s"
      and ql: "queueLimit (?run xs) = queueLimit L" by simp_all
    have q: "int (length (queue ?s)) < queueLimit (?run xs)"
      using len False ql by (cases xs) simp_all
    have "enqueue (?run xs) t a j =
        ((?run xs)\<lparr>agents := (agents (?run xs))(a \<mapsto> ?s\<lparr>queue := queue ?s @ [j]\<rparr>)\<rparr>, None)"
      using IH _ q by (rule enqueue_busy) simp
    with step have "?run (xs @ [x]) =
        (?run xs)\<lparr>agents := (agents (?run xs))(a \<mapsto> ?s\<lparr>queue := queue ?s @ [j]\<rparr>)\<rparr>"
      by simp
    then show ?thesis using False x ql
      by (cases xs) simp_all
  qed
qed

lemma refill_state_tokens:
  "tokens (refill_state L now s) =
     (let refill = double (double (double (rat_of_int (now - lastRefill s)) / 60000) * tokensPerMinute L)
      in if 1 \<le> refill then
           (let t = min (burst L) (double (tokens s + refill))
            in if queue s \<noteq> [] \<and> \<not> processing s \<and> 1 \<le> t then double (t - 1) else t)
         else tokens s)"
  by (simp add: refill_state_def Let_def processQueue_state_def work_tokens)

text \<open>
  A refill of at least \<open>burst\<close> fills the bucket. This is what a product beyond the
  largest double does, finite here and \<open>Infinity\<close> in the source.
\<close>

lemma refill_saturates:
  assumes "0 \<le> burst L" and "double (burst L) = burst L" and "0 \<le> tokens s"
    and "burst L \<le> refill"
  shows "min (burst L) (double (tokens s + refill)) = burst L"
proof -
  from assms(3,4) have "burst L \<le> tokens s + refill" by simp
  with assms(1) have "burst L \<le> double (tokens s + refill)" using assms(2) by (rule double_ge)
  then show ?thesis by simp
qed

lemma refill_step_tokens:
  assumes "agents (limiter_run L evs) a = Some s"
  shows "map_option tokens (agents (limiter_run L (evs @ [Refill now])) a) =
      Some (let refill = double (double (double (rat_of_int (now - lastRefill s)) / 60000) * tokensPerMinute L)
            in if 1 \<le> refill then
                 (let t = min (burst L) (double (tokens s + refill))
                  in if queue s \<noteq> [] \<and> \<not> processing s \<and> 1 \<le> t then double (t - 1) else t)
               else tokens s)"
  using assms
  by (simp add: limiter_run_snoc refillTokens_def refill_state_tokens limiter_run_burst
      limiter_run_tokensPerMinute Let_def)

lemma work_tick_step_tokens:
  assumes "agents (limiter_run L evs) a = Some s"
  shows "map_option tokens (agents (limiter_run L (evs @ [WorkTick a])) a) =
      Some (if cont s = WorkScheduled \<and> queue s \<noteq> [] \<and> 1 \<le> tokens s
            then double (tokens s - 1) else tokens s)"
  using assms
  by (cases "cont s") (simp_all add: limiter_run_snoc work_tick_def work_tokens)

lemma task_settled_step_tokens:
  assumes "agents (limiter_run L evs) a = Some s"
  shows "map_option tokens (agents (limiter_run L (evs @ [TaskSettled a])) a) = Some (tokens s)"
  using assms
  by (cases "cont s") (simp_all add: limiter_run_snoc task_settled_def)

lemma enqueue_step_tokens:
  assumes "agents (limiter_run L evs) a = Some s"
  shows "map_option tokens (agents (limiter_run L (evs @ [Enqueue now a job])) a) =
      Some (if int (length (queue s)) < queueLimit L \<and> \<not> processing s \<and> 1 \<le> tokens s
            then double (tokens s - 1) else tokens s)"
  using assms
  by (simp add: limiter_run_snoc enqueue_def getAgentState_def processQueue_def
      processQueue_state_def work_tokens limiter_run_queueLimit)

lemma new_agent_step:
  assumes "agents (limiter_run L evs) a = None"
  shows "agents (fst (getAgentState (limiter_run L evs) now a)) a =
      Some \<lparr>tokens = burst L, lastRefill = now, queue = [], processing = False, cont = NoWork\<rparr>"
  using assms
  by (simp add: getAgentState_def new_agent_state_def limiter_run_burst)

text \<open>
  Claim C10. In every agent state of the rate limiter the tokens stay a double
  between 0 and \<open>burst\<close>: if that holds of a limiter (as it does of a new one,
  which has no agent states) and \<open>burst\<close> is a double and not negative, it holds
  after every sequence of enqueue, refill, task completion and scheduled \<open>work\<close>
  steps; and with \<open>burst \<le> 2 ^ 53\<close>, taking a token off such a state is exact.
  In every state that a sequence of steps reaches: an agent state created by
  \<open>getAgentState\<close> starts with \<open>tokens = burst\<close>; a refill, which applies once
  \<open>elapsed \<times> tokensPerMinute\<close> (computed in doubles) has reached 1, adds that
  amount, clamps the sum to \<open>burst\<close> and, the queue being non-empty and no
  processing under way, starts the next job at once; a scheduled \<open>work\<close> and an
  accepted \<open>enqueue\<close> take one token off only when \<open>tokens \<ge> 1\<close>; the settling
  of a task leaves the tokens alone.
\<close>

theorem tokens_stay_within_burst:
  "(0 \<le> burst L \<and> double (burst L) = burst L
      \<and> (\<forall>a s. agents L a = Some s \<longrightarrow>
            0 \<le> tokens s \<and> tokens s \<le> burst L \<and> double (tokens s) = tokens s) \<longrightarrow>
      (\<forall>evs a s. agents (limiter_run L evs) a = Some s \<longrightarrow>
         0 \<le> tokens s \<and> tokens s \<le> burst L \<and> double (tokens s) = tokens s
         \<and> (burst L \<le> 2 ^ 53 \<and> 1 \<le> tokens s \<longrightarrow> double (tokens s - 1) = tokens s - 1)))
   \<and> (agents (limiter_run L evs) a = None \<longrightarrow>
        agents (fst (getAgentState (limiter_run L evs) now a)) a =
          Some \<lparr>tokens = burst L, lastRefill = now, queue = [], processing = False, cont = NoWork\<rparr>)
   \<and> (agents (limiter_run L evs) a = Some s \<longrightarrow>
        map_option tokens (agents (limiter_run L (evs @ [Refill now])) a) =
          Some (let refill = double (double (double (rat_of_int (now - lastRefill s)) / 60000)
                               * tokensPerMinute L)
                in if 1 \<le> refill then
                     (let t = min (burst L) (double (tokens s + refill))
                      in if queue s \<noteq> [] \<and> \<not> processing s \<and> 1 \<le> t then double (t - 1) else t)
                   else tokens s)
        \<and> map_option tokens (agents (limiter_run L (evs @ [WorkTick a])) a) =
            Some (if cont s = WorkScheduled \<and> queue s \<noteq> [] \<and> 1 \<le> tokens s
                  then double (tokens s - 1) else tokens s)
        \<and> map_option tokens (agents (limiter_run L (evs @ [Enqueue now a job])) a) =
            Some (if int (length (queue s)) < queueLimit L \<and> \<not> processing s \<and> 1 \<le> tokens s
                  then double (tokens s - 1) else tokens s)
        \<and> map_option tokens (agents (limiter_run L (evs @ [TaskSettled a])) a) = Some (tokens s))"
proof (intro conjI impI allI)
  fix evs a s'
  assume h: "0 \<le> burst L \<and> double (burst L) = burst L
      \<and> (\<forall>a s. agents L a = Some s \<longrightarrow>
            0 \<le> tokens s \<and> tokens s \<le> burst L \<and> double (tokens s) = tokens s)"
    and s': "agents (limiter_run L evs) a = Some s'"
  from h have "limiter_ok L"
    by (simp add: limiter_ok_def tokens_ok_def)
  then have "limiter_ok (limiter_run L evs)"
    by (rule limiter_run_ok)
  with s' have "tokens_ok (burst (limiter_run L evs)) s'"
    by (simp add: limiter_ok_def)
  then have ok: "tokens_ok (burst L) s'"
    by (simp add: limiter_run_burst)
  from ok show "0 \<le> tokens s'" by (simp add: tokens_ok_def)
  from ok show "tokens s' \<le> burst L" by (simp add: tokens_ok_def)
  from ok show d: "double (tokens s') = tokens s'" by (simp add: tokens_ok_def)
  {
    assume "burst L \<le> 2 ^ 53 \<and> 1 \<le> tokens s'"
    with ok have "1 \<le> tokens s'" and "tokens s' \<le> 2 ^ 53" by (simp_all add: tokens_ok_def)
    with d show "double (tokens s' - 1) = tokens s' - 1" by (rule double_minus_one)
  }
next
  assume "agents (limiter_run L evs) a = None"
  then show "agents (fst (getAgentState (limiter_run L evs) now a)) a =
          Some \<lparr>tokens = burst L, lastRefill = now, queue = [], processing = False, cont = NoWork\<rparr>"
    by (rule new_agent_step)
next
  assume s: "agents (limiter_run L evs) a = Some s"
  from s show "map_option tokens (agents (limiter_run L (evs @ [Refill now])) a) =
          Some (let refill = double (double (double (rat_of_int (now - lastRefill s)) / 60000)
                               * tokensPerMinute L)
                in if 1 \<le> refill then
                     (let t = min (burst L) (double (tokens s + refill))
                      in if queue s \<noteq> [] \<and> \<not> processing s \<and> 1 \<le> t then double (t - 1) else t)
                   else tokens s)"
    by (rule refill_step_tokens)
  from s show "map_option tokens (agents (limiter_run L (evs @ [WorkTick a])) a) =
            Some (if cont s = WorkScheduled \<and> queue s \<noteq> [] \<and> 1 \<le> tokens s
                  then double (tokens s - 1) else tokens s)"
    by (rule work_tick_step_tokens)
  from s show "map_option tokens (agents (limiter_run L (evs @ [Enqueue now a job])) a) =
            Some (if int (length (queue s)) < queueLimit L \<and> \<not> processing s \<and> 1 \<le> tokens s
                  then double (tokens s - 1) else tokens s)"
    by (rule enqueue_step_tokens)
  from s show "map_option tokens (agents (limiter_run L (evs @ [TaskSettled a])) a) = Some (tokens s)"
    by (rule task_settled_step_tokens)
qed

text \<open>
  A run in which rounding shows: with \<open>burst = 2\<close> and five jobs, after the refills at
  603 ms and 1800 ms the tokens are \<open>1 - 2 powi - 52\<close> (0.9999999999999998, where
  exact arithmetic gives 1) and the fifth job stays queued.
\<close>

lemma refill_rounding_example:
  "agents (limiter_run small_limiter refill_events) ''a1'' =
     Some \<lparr>tokens = 4503599627370495 / 4503599627370496, lastRefill = 1800, queue = [5],
           processing = False, cont = NoWork\<rparr>"
  by code_simp

lemma small_limiter_new:
  shows "burst small_limiter = 2" and "double (burst small_limiter) = burst small_limiter"
    and "agents small_limiter = Map.empty"
proof -
  have "double 2 = 2" by code_simp
  then show "double (burst small_limiter) = burst small_limiter"
    by (simp add: small_limiter_def RateLimiter_def)
qed (simp_all add: small_limiter_def RateLimiter_def)

theorem tokens_stay_within_burst_witness:
  "0 \<le> burst small_limiter
   \<and> double (burst small_limiter) = burst small_limiter
   \<and> agents small_limiter = Map.empty
   \<and> agents (limiter_run small_limiter refill_events) ''a1'' =
       Some \<lparr>tokens = 4503599627370495 / 4503599627370496, lastRefill = 1800, queue = [5],
             processing = False, cont = NoWork\<rparr>
   \<and> (\<exists>s. agents (limiter_run small_limiter refill_events) ''a1'' = Some s
          \<and> 0 \<le> tokens s \<and> tokens s \<le> 2)"
proof -
  let ?L = "small_limiter"
  note b = small_limiter_new(1) and d = small_limiter_new(2) and e = small_limiter_new(3)
  from b d e have h: "0 \<le> burst ?L \<and> double (burst ?L) = burst ?L
      \<and> (\<forall>a s. agents ?L a = Some s \<longrightarrow>
            0 \<le> tokens s \<and> tokens s \<le> burst ?L \<and> double (tokens s) = tokens s)"
    by simp
  note inv = tokens_stay_within_burst[where L = ?L, THEN conjunct1, THEN mp, OF h]
  from inv have "\<forall>s. agents (limiter_run ?L refill_events) ''a1'' = Some s \<longrightarrow>
      0 \<le> tokens s \<and> tokens s \<le> burst ?L"
    by blast
  with refill_rounding_example
  have "\<exists>s. agents (limiter_run ?L refill_events) ''a1'' = Some s \<and> 0 \<le> tokens s \<and> tokens s \<le> 2"
    unfolding b by blast
  moreover have "0 \<le> burst ?L" by (simp add: b)
  ultimately show ?thesis using d e refill_rounding_example by blast
qed

lemma enqueue_result:
  "snd (enqueue L now a job) =
     (if queueLimit L \<le> int (length (queue (snd (getAgentState L now a))))
      then Some (RateLimitError ''Queue capacity reached'') else None)"
  by (cases "agents L a") (simp_all add: enqueue_def getAgentState_def)

lemma enqueue_rejected_unchanged:
  assumes "queueLimit L \<le> int (length (queue (snd (getAgentState L now a))))"
  shows "fst (enqueue L now a job) = fst (getAgentState L now a)"
proof (cases "agents L a")
  case None
  with assms show ?thesis
    by (simp add: enqueue_def getAgentState_def)
next
  case (Some s)
  with assms show ?thesis
    by (simp add: enqueue_def getAgentState_def)
qed

lemma processQueue_state_push:
  "queue (processQueue_state (s\<lparr>queue := q @ [job]\<rparr>)) = q @ [job]
   \<or> (cont (processQueue_state (s\<lparr>queue := q @ [job]\<rparr>)) = AwaitTask (hd (q @ [job]))
      \<and> queue (processQueue_state (s\<lparr>queue := q @ [job]\<rparr>)) = tl (q @ [job]))"
  by (cases "q @ [job]") (auto simp: processQueue_state_def work_def)

lemma enqueue_accepted_state:
  assumes "int (length (queue (snd (getAgentState L now a)))) < queueLimit L"
  shows "agents (fst (enqueue L now a job)) a =
    Some (processQueue_state ((snd (getAgentState L now a))\<lparr>queue := queue (snd (getAgentState L now a)) @ [job]\<rparr>))"
proof (cases "agents L a")
  case None
  with assms show ?thesis
    by (simp add: enqueue_def getAgentState_def processQueue_def)
next
  case (Some s)
  with assms show ?thesis
    by (simp add: enqueue_def getAgentState_def processQueue_def)
qed

lemma mapError_RateLimitError:
  "mapError (Some (RateLimitError msg)) =
     \<lparr>http_status = 429, http_code = ''RATE_LIMITED'', http_message = ''Rate limit exceeded''\<rparr>"
  by (simp add: mapError_def RateLimitError_def)

lemma after_500_jobs:
  assumes "agents L a = None" and "queueLimit L = 500" and "1 \<le> burst L" and "length tjs = 500"
  shows "snd (enqueue (limiter_run L (map (\<lambda>(t, j). Enqueue t a j) tjs)) t1 a j1) = None"
    and "snd (enqueue (fst (enqueue (limiter_run L (map (\<lambda>(t, j). Enqueue t a j) tjs)) t1 a j1)) t2 a j2)
          = Some (RateLimitError ''Queue capacity reached'')"
proof -
  let ?L500 = "limiter_run L (map (\<lambda>(t, j). Enqueue t a j) tjs)"
  let ?s = "\<lparr>tokens = double (burst L - 1), lastRefill = fst (hd tjs), queue = map snd (tl tjs),
        processing = True, cont = AwaitTask (snd (hd tjs))\<rparr>"
  from assms have ne: "tjs \<noteq> []" by auto
  from assms have "int (length tjs) \<le> queueLimit L + 1" by simp
  with never_resolving_jobs[OF assms(1) assms(3) _ ne] assms(2)
  have st: "agents ?L500 a = Some ?s" and ql: "queueLimit ?L500 = 500"
    by simp_all
  have len: "length (queue ?s) = 499" using assms(4) by simp
  have acc: "enqueue ?L500 t1 a j1 =
      (?L500\<lparr>agents := (agents ?L500)(a \<mapsto> ?s\<lparr>queue := queue ?s @ [j1]\<rparr>)\<rparr>, None)"
    using st _ _ by (rule enqueue_busy) (simp_all add: ql assms(4))
  then show "snd (enqueue ?L500 t1 a j1) = None" by simp
  let ?L501 = "?L500\<lparr>agents := (agents ?L500)(a \<mapsto> ?s\<lparr>queue := queue ?s @ [j1]\<rparr>)\<rparr>"
  have "enqueue ?L501 t2 a j2 = (?L501, Some (RateLimitError ''Queue capacity reached''))"
    by (rule enqueue_full[where s = "?s\<lparr>queue := queue ?s @ [j1]\<rparr>"]) (simp_all add: ql assms(4))
  with acc show "snd (enqueue (fst (enqueue ?L500 t1 a j1)) t2 a j2)
          = Some (RateLimitError ''Queue capacity reached'')" by simp
qed

text \<open>
  Claim C5. With \<open>queue_limit = 500\<close>, \<open>enqueue\<close> fails, with a \<open>RateLimitError\<close>
  that \<open>mapError\<close> turns into 429 \<open>RATE_LIMITED\<close>, exactly when the agent's queue
  holds at least 500 entries at the time of the call, and then leaves the queue as it
  is; otherwise it appends the job (the head of the queue may at once be taken off
  for execution). After 500 jobs were enqueued for a new agent and no task has
  settled, one more \<open>enqueue\<close> is accepted and the next one is rejected.
\<close>

theorem enqueue_rate_limited_at_500:
  "(queueLimit L = 500 \<longrightarrow>
      snd (enqueue L now a job) =
        (if 500 \<le> length (queue (snd (getAgentState L now a)))
         then Some (RateLimitError ''Queue capacity reached'') else None)
      \<and> (500 \<le> length (queue (snd (getAgentState L now a))) \<longrightarrow>
           agents (fst (enqueue L now a job)) a = Some (snd (getAgentState L now a)))
      \<and> (length (queue (snd (getAgentState L now a))) < 500 \<longrightarrow>
           (\<exists>s'. agents (fst (enqueue L now a job)) a = Some s'
              \<and> (queue s' = queue (snd (getAgentState L now a)) @ [job]
                 \<or> (cont s' = AwaitTask (hd (queue (snd (getAgentState L now a)) @ [job]))
                    \<and> queue s' = tl (queue (snd (getAgentState L now a)) @ [job]))))))
   \<and> mapError (Some (RateLimitError msg)) =
       \<lparr>http_status = 429, http_code = ''RATE_LIMITED'', http_message = ''Rate limit exceeded''\<rparr>
   \<and> (agents L a = None \<and> queueLimit L = 500 \<and> 1 \<le> burst L \<and> length tjs = 500 \<longrightarrow>
        snd (enqueue (limiter_run L (map (\<lambda>(t, j). Enqueue t a j) tjs)) t1 a j1) = None
        \<and> snd (enqueue (fst (enqueue (limiter_run L (map (\<lambda>(t, j). Enqueue t a j) tjs)) t1 a j1))
               t2 a j2) = Some (RateLimitError ''Queue capacity reached''))"
proof (intro conjI impI)
  assume ql: "queueLimit L = 500"
  show "snd (enqueue L now a job) =
        (if 500 \<le> length (queue (snd (getAgentState L now a)))
         then Some (RateLimitError ''Queue capacity reached'') else None)"
    by (simp add: enqueue_result ql)
  {
    assume "500 \<le> length (queue (snd (getAgentState L now a)))"
    then have "queueLimit L \<le> int (length (queue (snd (getAgentState L now a))))"
      by (simp add: ql)
    then have "fst (enqueue L now a job) = fst (getAgentState L now a)"
      by (rule enqueue_rejected_unchanged)
    then show "agents (fst (enqueue L now a job)) a = Some (snd (getAgentState L now a))"
      by (simp add: getAgentState_def split: option.split)
  }
  {
    assume "length (queue (snd (getAgentState L now a))) < 500"
    then have "int (length (queue (snd (getAgentState L now a)))) < queueLimit L"
      by (simp add: ql)
    then have "agents (fst (enqueue L now a job)) a =
      Some (processQueue_state ((snd (getAgentState L now a))\<lparr>queue := queue (snd (getAgentState L now a)) @ [job]\<rparr>))"
      by (rule enqueue_accepted_state)
    with processQueue_state_push[where s = "snd (getAgentState L now a)"
        and q = "queue (snd (getAgentState L now a))" and job = job]
    show "\<exists>s'. agents (fst (enqueue L now a job)) a = Some s'
              \<and> (queue s' = queue (snd (getAgentState L now a)) @ [job]
                 \<or> (cont s' = AwaitTask (hd (queue (snd (getAgentState L now a)) @ [job]))
                    \<and> queue s' = tl (queue (snd (getAgentState L now a)) @ [job])))"
      by blast
  }
next
  show "mapError (Some (RateLimitError msg)) =
       \<lparr>http_status = 429, http_code = ''RATE_LIMITED'', http_message = ''Rate limit exceeded''\<rparr>"
    by (rule mapError_RateLimitError)
next
  assume h: "agents L a = None \<and> queueLimit L = 500 \<and> 1 \<le> burst L \<and> length tjs = 500"
  then show "snd (enqueue (limiter_run L (map (\<lambda>(t, j). Enqueue t a j) tjs)) t1 a j1) = None"
    by (simp add: after_500_jobs(1))
  from h show "snd (enqueue (fst (enqueue (limiter_run L (map (\<lambda>(t, j). Enqueue t a j) tjs)) t1 a j1))
               t2 a j2) = Some (RateLimitError ''Queue capacity reached'')"
    by (simp add: after_500_jobs(2))
qed

theorem enqueue_rate_limited_at_500_witness:
  "agents (app_rateLimiter :: nat limiter) ''a1'' = None
   \<and> queueLimit (app_rateLimiter :: nat limiter) = 500
   \<and> 1 \<le> burst (app_rateLimiter :: nat limiter)
   \<and> length (map (\<lambda>n. (int n, n)) [0..<500]) = 500
   \<and> snd (enqueue (limiter_run (app_rateLimiter :: nat limiter)
              (map (\<lambda>(t, j). Enqueue t ''a1'' j) (map (\<lambda>n. (int n, n)) [0..<500]))) 500 ''a1'' 500) = None
   \<and> snd (enqueue (fst (enqueue (limiter_run (app_rateLimiter :: nat limiter)
              (map (\<lambda>(t, j). Enqueue t ''a1'' j) (map (\<lambda>n. (int n, n)) [0..<500]))) 500 ''a1'' 500))
            501 ''a1'' 501) = Some (RateLimitError ''Queue capacity reached'')"
proof -
  let ?L = "app_rateLimiter :: nat limiter"
  have h: "agents ?L ''a1'' = None \<and> queueLimit ?L = 500 \<and> 1 \<le> burst ?L
      \<and> length (map (\<lambda>n. (int n, n)) [0..<500]) = 500"
    by (simp add: app_rateLimiter_def RateLimiter_def)
  from enqueue_rate_limited_at_500[of ?L _ "''a1''" _ _ "map (\<lambda>n. (int n, n)) [0..<500]" 500 500 501 501] h
  show ?thesis by blast
qed

section \<open>Properties of the error mapping\<close>

lemma mapError_default:
  assumes "\<not> is_rate_limit e"
    and "err_code e \<notin> Some ` {''INVALID_PAYLOAD'', ''SESSION_NOT_FOUND'', ''SESSION_NOT_READY'',
           ''MEDIA_TOO_LARGE'', ''AI_TIMEOUT'', ''AI_DOWNSTREAM_ERROR'', ''BAD_GATEWAY''}"
  shows "mapError (Some e) =
    \<lparr>http_status = 500, http_code = ''BAD_GATEWAY'',
     http_message = or_else (err_message e) ''Internal server error''\<rparr>"
  using assms
  by (simp add: mapError_def AI_TIMEOUT_CODE_def AI_DOWNSTREAM_CODE_def)

lemma getAgent_agent_id: "getAgent rows a = Some r \<Longrightarrow> agent_id r = a"
  by (auto simp: getAgent_def find_Some_iff)

lemma ensureClient_existing:
  assumes "live_session m (agent_id r) = Some (sid, s)"
  shows "ensureClient m r now failure =
    Inr (m\<lparr>objects := (objects m)(sid \<mapsto> s\<lparr>agent := r, lastAgentRefresh := now\<rparr>)\<rparr>, sid)"
  using assms by (simp add: ensureClient_def)

lemma sendText_bad_jid:
  assumes "getAgent (db m) a = Some r" and "live_session m a = Some (sid, s)" and "isReady s"
    and "normalizeJid to = Inl e"
  shows "snd (sendText m L a to msg q now failure) = Inl e"
proof -
  from assms(1) have "agent_id r = a" by (rule getAgent_agent_id)
  with assms(2) have "ensureClient m r now failure =
    Inr (m\<lparr>objects := (objects m)(sid \<mapsto> s\<lparr>agent := r, lastAgentRefresh := now\<rparr>)\<rparr>, sid)"
    by (simp add: ensureClient_existing)
  with assms(1,3,4) show ?thesis
    by (simp add: sendText_def)
qed

text \<open>
  Claim C9. An error that is no \<open>RateLimitError\<close> and carries none of the codes
  \<open>mapError\<close> recognises is mapped to status 500 with code \<open>BAD_GATEWAY\<close>. In
  particular, when the agent exists and its session is ready, a recipient that
  \<open>normalizeJid\<close> rejects with \<open>Unsupported phone number format\<close> makes
  \<open>sendText\<close> throw that error, which has no code, and the route answers 500
  \<open>BAD_GATEWAY\<close>, not \<open>INVALID_PAYLOAD\<close>.
\<close>

theorem unrecognised_errors_are_500_bad_gateway:
  "(\<not> is_rate_limit e
      \<and> err_code e \<notin> Some ` {''INVALID_PAYLOAD'', ''SESSION_NOT_FOUND'', ''SESSION_NOT_READY'',
           ''MEDIA_TOO_LARGE'', ''AI_TIMEOUT'', ''AI_DOWNSTREAM_ERROR'', ''BAD_GATEWAY''} \<longrightarrow>
      http_status (mapError (Some e)) = 500 \<and> http_code (mapError (Some e)) = ''BAD_GATEWAY'')
   \<and> (getAgent (db m) a = Some r \<and> live_session m a = Some (sid, s) \<and> isReady s
        \<and> to \<noteq> [] \<and> msg \<noteq> []
        \<and> normalizeJid to = Inl (plain_error ''Unsupported phone number format'') \<longrightarrow>
        snd (sendText m L a to msg q now failure)
          = Inl (plain_error ''Unsupported phone number format'')
        \<and> snd (post_messages m L a (Val to) (Val msg) q now failure)
          = Some \<lparr>http_status = 500, http_code = ''BAD_GATEWAY'',
                  http_message = ''Unsupported phone number format''\<rparr>)"
proof (intro conjI impI)
  assume "\<not> is_rate_limit e
      \<and> err_code e \<notin> Some ` {''INVALID_PAYLOAD'', ''SESSION_NOT_FOUND'', ''SESSION_NOT_READY'',
           ''MEDIA_TOO_LARGE'', ''AI_TIMEOUT'', ''AI_DOWNSTREAM_ERROR'', ''BAD_GATEWAY''}"
  then have eq: "mapError (Some e) =
    \<lparr>http_status = 500, http_code = ''BAD_GATEWAY'',
     http_message = or_else (err_message e) ''Internal server error''\<rparr>"
    using mapError_default[of e] by (elim conjE) (rule mapError_default)
  show "http_status (mapError (Some e)) = 500" by (simp add: eq)
  show "http_code (mapError (Some e)) = ''BAD_GATEWAY''" by (simp add: eq)
next
  assume h: "getAgent (db m) a = Some r \<and> live_session m a = Some (sid, s) \<and> isReady s
        \<and> to \<noteq> [] \<and> msg \<noteq> []
        \<and> normalizeJid to = Inl (plain_error ''Unsupported phone number format'')"
  then have st: "snd (sendText m L a to msg q now failure)
      = Inl (plain_error ''Unsupported phone number format'')"
    by (simp add: sendText_bad_jid)
  then show "snd (sendText m L a to msg q now failure)
      = Inl (plain_error ''Unsupported phone number format'')" .
  have "mapError (Some (plain_error ''Unsupported phone number format'')) =
      \<lparr>http_status = 500, http_code = ''BAD_GATEWAY'',
       http_message = ''Unsupported phone number format''\<rparr>"
    by (simp add: mapError_def plain_error_def or_else_def)
  with st h show "snd (post_messages m L a (Val to) (Val msg) q now failure)
          = Some \<lparr>http_status = 500, http_code = ''BAD_GATEWAY'',
                  http_message = ''Unsupported phone number format''\<rparr>"
    by (cases "sendText m L a to msg q now failure") (simp add: post_messages_def)
qed

lemma ready_manager_example:
  "getAgent (db (manager_run (new_manager [example_agent])
        [EnsureClient example_agent 0 None, ClientReady 0 10])) ''a1''
     = Some (example_agent\<lparr>agent_status := connected, updated_at := 10, last_connected_at := Some 10\<rparr>)
   \<and> live_session (manager_run (new_manager [example_agent])
        [EnsureClient example_agent 0 None, ClientReady 0 10]) ''a1''
     = Some (0, \<lparr>agent = example_agent, client = 0, qr = None, qrUpdatedAt = None, isReady = True,
          status = connected, lastAgentRefresh = 0, shuttingDown = False, metricsCounted = True,
          handler_record = example_agent\<rparr>)"
  by (simp add: manager_run_def new_manager_def ensureClient_def live_session_def on_ready_def
      getAgent_def updateStatus_def set_status_def example_agent_def Let_def)

lemma bad_jid_example:
  "normalizeJid ''7123'' = Inl (plain_error ''Unsupported phone number format'')"
  by (simp add: normalizeJid_def trim_def is_space_def endsWith_def ensureCountryCode_def
      startsWith_def normalizeDigits_def strip_plus_def is_digit_def)

theorem unrecognised_errors_are_500_bad_gateway_witness:
  "normalizeJid ''7123'' = Inl (plain_error ''Unsupported phone number format'')
   \<and> snd (post_messages
        (manager_run (new_manager [example_agent]) [EnsureClient example_agent 0 None, ClientReady 0 10])
        app_rateLimiter ''a1'' (Val ''7123'') (Val ''Ping'') None 20 None)
      = Some \<lparr>http_status = 500, http_code = ''BAD_GATEWAY'',
              http_message = ''Unsupported phone number format''\<rparr>
   \<and> http_status (mapError (Some (plain_error ''boom''))) = 500
   \<and> http_code (mapError (Some (plain_error ''boom''))) = ''BAD_GATEWAY''"
proof -
  let ?m = "manager_run (new_manager [example_agent]) [EnsureClient example_agent 0 None, ClientReady 0 10]"
  let ?r = "example_agent\<lparr>agent_status := connected, updated_at := 10, last_connected_at := Some 10\<rparr>"
  let ?s = "\<lparr>agent = example_agent, client = 0, qr = None, qrUpdatedAt = None, isReady = True,
          status = connected, lastAgentRefresh = 0, shuttingDown = False, metricsCounted = True,
          handler_record = example_agent\<rparr>"
  have c: "\<not> is_rate_limit (plain_error ''boom'')
      \<and> err_code (plain_error ''boom'') \<notin> Some ` {''INVALID_PAYLOAD'', ''SESSION_NOT_FOUND'', ''SESSION_NOT_READY'',
           ''MEDIA_TOO_LARGE'', ''AI_TIMEOUT'', ''AI_DOWNSTREAM_ERROR'', ''BAD_GATEWAY''}"
    by (simp add: plain_error_def)
  have h: "getAgent (db ?m) ''a1'' = Some ?r \<and> live_session ?m ''a1'' = Some (0, ?s) \<and> isReady ?s
        \<and> ''7123'' \<noteq> [] \<and> ''Ping'' \<noteq> []
        \<and> normalizeJid ''7123'' = Inl (plain_error ''Unsupported phone number format'')"
    using ready_manager_example bad_jid_example by simp
  note inst = unrecognised_errors_are_500_bad_gateway[where e = "plain_error ''boom''" and m = ?m
      and a = "''a1''" and r = ?r and sid = 0 and s = ?s and to = "''7123''" and msg = "''Ping''"
      and L = app_rateLimiter and q = None and now = 20 and failure = None]
  have 1: "http_status (mapError (Some (plain_error ''boom''))) = 500
      \<and> http_code (mapError (Some (plain_error ''boom''))) = ''BAD_GATEWAY''"
    by (rule inst[THEN conjunct1, THEN mp, OF c])
  have 2: "snd (post_messages ?m app_rateLimiter ''a1'' (Val ''7123'') (Val ''Ping'') None 20 None)
      = Some \<lparr>http_status = 500, http_code = ''BAD_GATEWAY'',
              http_message = ''Unsupported phone number format''\<rparr>"
    by (rule inst[THEN conjunct2, THEN mp, OF h, THEN conjunct2])
  from 1 2 bad_jid_example show ?thesis by simp
qed

section \<open>Properties of media preparation\<close>

lemma finish_media_error:
  "finish_media io buf mime fname save = Inl e \<Longrightarrow> \<exists>p b. write_preview io p b = Some e"
  by (auto simp: finish_media_def Let_def split: if_splits option.splits)

lemma media_from_url_error:
  assumes "media_from_url io u f0 m0 save = Inl e"
  shows "(\<not> present u \<and> e = coded_error ''INVALID_PAYLOAD'' ''Either data or url is required'')
    \<or> e = coded_error ''BAD_GATEWAY'' ''Failed to inspect remote media''
    \<or> e = coded_error ''MEDIA_TOO_LARGE'' ''Remote media exceeds 10MB or size unknown''
    \<or> (\<exists>link. http_get io link = Inl e)
    \<or> (\<exists>p b. write_preview io p b = Some e)"
proof (cases u)
  case (Val link)
  show ?thesis
  proof (cases "link = []")
    case True
    with Val assms show ?thesis by (simp add: media_from_url_def)
  next
    case False
    show ?thesis
    proof (cases "http_head io link")
      case HeadFailed
      with Val False assms show ?thesis by (simp add: media_from_url_def)
    next
      case (HeadSize sz)
      show ?thesis
      proof (cases "size_rejected sz")
        case True
        with Val False HeadSize assms show ?thesis by (simp add: media_from_url_def)
      next
        case ok: False
        show ?thesis
        proof (cases "http_get io link")
          case (Inl err)
          with Val False HeadSize ok assms have "e = err" by (simp add: media_from_url_def)
          with Inl show ?thesis by blast
        next
          case (Inr response)
          with Val False HeadSize ok assms
          have "\<exists>buf mime fname. finish_media io buf mime fname save = Inl e"
            by (auto simp: media_from_url_def Let_def)
          then show ?thesis using finish_media_error by blast
        qed
      qed
    qed
  qed
next
  case Undefined
  with assms show ?thesis by (simp add: media_from_url_def)
next
  case Null
  with assms show ?thesis by (simp add: media_from_url_def)
qed

lemma prepareMedia_no_data:
  "\<not> present (data req) \<Longrightarrow>
   prepareMedia io req =
     media_from_url io (url req)
       (case filename req of Undefined \<Rightarrow> Val ''image.jpg'' | f \<Rightarrow> f)
       (case mimeType req of Undefined \<Rightarrow> Val ''image/jpeg'' | t \<Rightarrow> t)
       (save_to_temp req \<noteq> Val False)"
  by (cases "data req") (simp_all add: prepareMedia_def Let_def)

lemma prepareMedia_with_data:
  assumes "data req = Val d" and "d \<noteq> []"
  shows "prepareMedia io req =
     (if length (base64_decode io (base64_part d)) > MAX_MEDIA_BYTES
      then Inl (coded_error ''MEDIA_TOO_LARGE'' ''Media exceeds 10MB'')
      else finish_media io (base64_decode io (base64_part d))
             (case mimeType req of Undefined \<Rightarrow> Val ''image/jpeg'' | t \<Rightarrow> t)
             (case filename req of Undefined \<Rightarrow> Val ''image.jpg'' | f \<Rightarrow> f)
             (save_to_temp req \<noteq> Val False))"
  using assms by (simp add: prepareMedia_def Let_def)

lemma present_cases: "present f \<Longrightarrow> \<exists>d. f = Val d \<and> d \<noteq> []"
  by (cases f) simp_all

lemma prepareMedia_neither:
  assumes "\<not> present (data req)" and "\<not> present (url req)"
  shows "prepareMedia io req = Inl (coded_error ''INVALID_PAYLOAD'' ''Either data or url is required'')"
proof -
  from assms(2) have "media_from_url io (url req) f0 m0 save
      = Inl (coded_error ''INVALID_PAYLOAD'' ''Either data or url is required'')" for f0 m0 save
    by (cases "url req") (simp_all add: media_from_url_def)
  with assms(1) show ?thesis by (simp add: prepareMedia_no_data)
qed

lemma prepareMedia_url_ignored:
  assumes "present (data req)"
  shows "prepareMedia io (req\<lparr>url := u\<rparr>) = prepareMedia io req"
proof -
  from assms obtain d where d: "data req = Val d" "d \<noteq> []"
    using present_cases by blast
  then have "data (req\<lparr>url := u\<rparr>) = Val d" by simp
  from prepareMedia_with_data[OF this d(2)] prepareMedia_with_data[OF d]
  show ?thesis by simp
qed

lemma prepareMedia_invalid_payload_only_if_neither:
  assumes "prepareMedia io req = Inl e" and "err_code e = Some ''INVALID_PAYLOAD''"
    and "\<forall>link. http_get io link \<noteq> Inl e" and "\<forall>p b. write_preview io p b \<noteq> Some e"
  shows "\<not> present (data req) \<and> \<not> present (url req)"
proof (cases "present (data req)")
  case True
  then obtain d where d: "data req = Val d" "d \<noteq> []"
    using present_cases by blast
  from assms(1) prepareMedia_with_data[OF d, of io]
  have "e = coded_error ''MEDIA_TOO_LARGE'' ''Media exceeds 10MB''
      \<or> (\<exists>p b. write_preview io p b = Some e)"
    by (auto split: if_splits dest: finish_media_error)
  with assms(2,4) show ?thesis by (auto simp: coded_error_def)
next
  case False
  with assms(1) have "media_from_url io (url req)
       (case filename req of Undefined \<Rightarrow> Val ''image.jpg'' | f \<Rightarrow> f)
       (case mimeType req of Undefined \<Rightarrow> Val ''image/jpeg'' | t \<Rightarrow> t)
       (save_to_temp req \<noteq> Val False) = Inl e"
    by (simp add: prepareMedia_no_data)
  from media_from_url_error[OF this] assms(2,3,4) False show ?thesis
    by (auto simp: coded_error_def)
qed

text \<open>
  Claim C2 as stated fails: with both \<open>data\<close> and \<open>url\<close> supplied the call takes
  the \<open>data\<close> branch and succeeds.
\<close>

theorem prepareMedia_both_supplied_counterexample:
  "prepareMedia example_media_io
     \<lparr>data = Val ''QUJD'', url = Val ''https://example.com/pics/cat.png'', filename = Undefined,
      mimeType = Undefined, save_to_temp = Val False\<rparr>
   = Inr \<lparr>media = \<lparr>mimetype = Val ''image/jpeg'', media_data = ''QUJD'',
                    media_filename = Val ''image.jpg''\<rparr>,
          previewPath = None\<rparr>"
  by (simp add: prepareMedia_def finish_media_def example_media_io_def base64_part_def
      MAX_MEDIA_BYTES_def Let_def)

text \<open>
  Claim C2, amended. \<open>prepareMedia\<close> fails with \<open>INVALID_PAYLOAD\<close> when neither
  \<open>data\<close> nor \<open>url\<close> is present (missing, null or empty), and an
  \<open>INVALID_PAYLOAD\<close> error that does not come from the HTTP download or the file
  system arises only then. When \<open>data\<close> is present it is used and \<open>url\<close> is
  ignored: the outcome is the same whatever \<open>url\<close> holds.
\<close>

theorem prepareMedia_invalid_payload_iff_no_source:
  "(\<not> present (data req) \<and> \<not> present (url req) \<longrightarrow>
      prepareMedia io req = Inl (coded_error ''INVALID_PAYLOAD'' ''Either data or url is required''))
   \<and> (prepareMedia io req = Inl e \<and> err_code e = Some ''INVALID_PAYLOAD''
        \<and> (\<forall>link. http_get io link \<noteq> Inl e) \<and> (\<forall>p b. write_preview io p b \<noteq> Some e) \<longrightarrow>
        \<not> present (data req) \<and> \<not> present (url req))
   \<and> (present (data req) \<longrightarrow> prepareMedia io (req\<lparr>url := u\<rparr>) = prepareMedia io req)"
proof (intro conjI impI)
  assume "\<not> present (data req) \<and> \<not> present (url req)"
  then show "prepareMedia io req = Inl (coded_error ''INVALID_PAYLOAD'' ''Either data or url is required'')"
    by (simp add: prepareMedia_neither)
next
  assume h: "prepareMedia io req = Inl e \<and> err_code e = Some ''INVALID_PAYLOAD''
        \<and> (\<forall>link. http_get io link \<noteq> Inl e) \<and> (\<forall>p b. write_preview io p b \<noteq> Some e)"
  then have "\<not> present (data req) \<and> \<not> present (url req)"
    using prepareMedia_invalid_payload_only_if_neither[of io req e] by blast
  then show "\<not> present (data req)" and "\<not> present (url req)" by simp_all
next
  assume "present (data req)"
  then show "prepareMedia io (req\<lparr>url := u\<rparr>) = prepareMedia io req"
    by (rule prepareMedia_url_ignored)
qed

theorem prepareMedia_invalid_payload_iff_no_source_witness:
  "\<not> present (data \<lparr>data = Undefined, url = Val [], filename = Undefined, mimeType = Undefined,
                     save_to_temp = Undefined\<rparr>)
   \<and> \<not> present (url \<lparr>data = Undefined, url = Val [], filename = Undefined, mimeType = Undefined,
                     save_to_temp = Undefined\<rparr>)
   \<and> prepareMedia example_media_io
        \<lparr>data = Undefined, url = Val [], filename = Undefined, mimeType = Undefined,
         save_to_temp = Undefined\<rparr>
      = Inl (coded_error ''INVALID_PAYLOAD'' ''Either data or url is required'')
   \<and> present (data \<lparr>data = Val ''QUJD'', url = Undefined, filename = Undefined, mimeType = Undefined,
                     save_to_temp = Val False\<rparr>)
   \<and> prepareMedia example_media_io
        \<lparr>data = Val ''QUJD'', url = Val ''https://example.com/pics/cat.png'', filename = Undefined,
         mimeType = Undefined, save_to_temp = Val False\<rparr>
      = prepareMedia example_media_io
        \<lparr>data = Val ''QUJD'', url = Undefined, filename = Undefined, mimeType = Undefined,
         save_to_temp = Val False\<rparr>"
proof -
  let ?none = "\<lparr>data = Undefined, url = Val [], filename = Undefined, mimeType = Undefined,
                     save_to_temp = Undefined\<rparr> :: media_request"
  let ?both = "\<lparr>data = Val ''QUJD'', url = Undefined, filename = Undefined, mimeType = Undefined,
                     save_to_temp = Val False\<rparr> :: media_request"
  have n: "\<not> present (data ?none) \<and> \<not> present (url ?none)" by simp
  have b: "present (data ?both)" by simp
  have 1: "prepareMedia example_media_io ?none
      = Inl (coded_error ''INVALID_PAYLOAD'' ''Either data or url is required'')"
    by (rule prepareMedia_invalid_payload_iff_no_source[THEN conjunct1, THEN mp, OF n])
  have 2: "prepareMedia example_media_io (?both\<lparr>url := Val ''https://example.com/pics/cat.png''\<rparr>)
      = prepareMedia example_media_io ?both"
    by (rule prepareMedia_invalid_payload_iff_no_source[THEN conjunct2, THEN conjunct2, THEN mp, OF b])
  from n b 1 2 show ?thesis by simp
qed

text \<open>
  Claim C8 at a call with a \<open>url\<close> and no \<open>filename\<close>: the parameter default
  has already set \<open>filename\<close> to \<open>image.jpg\<close>, so the test \<open>!filename\<close> fails
  and the handle is named \<open>image.jpg\<close> although the URL's path has the basename
  \<open>cat.png\<close>. The basename is used only when \<open>filename\<close> is supplied as null
  or as the empty string.
\<close>

theorem prepareMedia_url_without_filename:
  "url_pathname example_media_io ''https://example.com/pics/cat.png'' = Some ''/pics/cat.png''
   \<and> path_basename example_media_io ''/pics/cat.png'' = ''cat.png''
   \<and> prepareMedia example_media_io
        \<lparr>data = Undefined, url = Val ''https://example.com/pics/cat.png'', filename = Undefined,
         mimeType = Undefined, save_to_temp = Val False\<rparr>
      = Inr \<lparr>media = \<lparr>mimetype = Val ''image/png'', media_data = ''QUJD'',
                       media_filename = Val ''image.jpg''\<rparr>,
             previewPath = None\<rparr>
   \<and> prepareMedia example_media_io
        \<lparr>data = Undefined, url = Val ''https://example.com/pics/cat.png'', filename = Null,
         mimeType = Undefined, save_to_temp = Val False\<rparr>
      = Inr \<lparr>media = \<lparr>mimetype = Val ''image/png'', media_data = ''QUJD'',
                       media_filename = Val ''cat.png''\<rparr>,
             previewPath = None\<rparr>"
  by (simp add: prepareMedia_def media_from_url_def finish_media_def example_media_io_def
      size_rejected_def MAX_MEDIA_BYTES_def Let_def)

lemma prepareMedia_filename_default:
  assumes "filename req = Undefined" and "prepareMedia io req = Inr r"
  shows "media_filename (media r) = Val ''image.jpg''"
proof (cases "present (data req)")
  case True
  then obtain d where d: "data req = Val d" "d \<noteq> []"
    using present_cases by blast
  from assms prepareMedia_with_data[OF d, of io] show ?thesis
    by (auto simp: finish_media_def Let_def split: if_splits option.splits)
next
  case False
  with assms have "media_from_url io (url req) (Val ''image.jpg'')
       (case mimeType req of Undefined \<Rightarrow> Val ''image/jpeg'' | t \<Rightarrow> t)
       (save_to_temp req \<noteq> Val False) = Inr r"
    by (simp add: prepareMedia_no_data)
  then show ?thesis
    by (auto simp: media_from_url_def finish_media_def Let_def
        split: field.splits if_splits head_result.splits sum.splits option.splits)
qed

section \<open>Properties of the client event handlers\<close>

lemma scheduleSessionRestart_objects:
  "objects (scheduleSessionRestart m r why c n d) = objects m"
  by (simp add: scheduleSessionRestart_def Let_def)

lemma on_ready_keeps: "ready_connected m \<Longrightarrow> ready_connected (on_ready m sid now)"
  by (auto simp: ready_connected_def on_ready_def Let_def split: option.splits if_splits)

lemma on_auth_failure_keeps: "ready_connected m \<Longrightarrow> ready_connected (on_auth_failure m sid now)"
  by (auto simp: ready_connected_def on_auth_failure_def Let_def scheduleSessionRestart_objects
      split: option.splits if_splits)

lemma on_disconnected_keeps: "ready_connected m \<Longrightarrow> ready_connected (on_disconnected m sid reason now)"
  by (auto simp: ready_connected_def on_disconnected_def Let_def scheduleSessionRestart_objects
      split: option.splits if_splits)

text \<open>
  Claim C4 at the events \<open>ready\<close>, \<open>qr\<close> on a new session: the \<open>qr\<close> handler sets
  \<open>status\<close> to \<open>awaiting_qr\<close> and leaves \<open>isReady\<close> alone, so the live session
  ends with \<open>isReady = true\<close> and \<open>status = awaiting_qr\<close>. The handlers of
  \<open>ready\<close>, \<open>auth_failure\<close> and \<open>disconnected\<close> keep the invariant (the three
  lemmas above).
\<close>

theorem qr_after_ready_keeps_isReady:
  "live_session
     (manager_run (new_manager [example_agent])
        [EnsureClient example_agent 0 None, ClientReady 0 10,
         ClientQr 0 (Some \<lparr>contentType = ''image/png'', base64 = ''AAAA''\<rparr>) 20]) ''a1''
   = Some (0, \<lparr>agent = example_agent, client = 0,
               qr = Some \<lparr>contentType = ''image/png'', base64 = ''AAAA''\<rparr>,
               qrUpdatedAt = Some 20, isReady = True, status = awaiting_qr,
               lastAgentRefresh = 0, shuttingDown = False, metricsCounted = True,
               handler_record = example_agent\<rparr>)"
  by (simp add: manager_run_def new_manager_def ensureClient_def live_session_def on_ready_def
      on_qr_def updateStatus_def set_status_def example_agent_def Let_def)

section \<open>Properties of the reconnect timer\<close>

lemma teardownClient_sessions: "sessions (teardownClient m a p c now) a = None"
  by (simp add: teardownClient_def Let_def live_session_def split: option.split)

lemma teardownClient_next_ref: "next_ref (teardownClient m a p c now) = next_ref m"
  by (simp add: teardownClient_def Let_def live_session_def split: option.split)

lemma teardownClient_timers:
  "reconnectTimers (teardownClient m a p c now) = (reconnectTimers m)(a := None)"
  by (simp add: teardownClient_def Let_def live_session_def split: option.split)

lemma teardownClient_db: "db (teardownClient m a True c now) = db m"
  by (simp add: teardownClient_def Let_def live_session_def split: option.split)

lemma teardownClient_authDirs:
  "authDirs (teardownClient m a p c now) =
     (if c then authDirs m - {sessionAuthPath a} else authDirs m)"
  by (simp add: teardownClient_def Let_def live_session_def split: option.split)

lemma teardownClient_marks:
  assumes "sessions m a = Some sid" and "objects m sid = Some s"
  shows "objects (teardownClient m a p c now) sid = Some (s\<lparr>shuttingDown := True\<rparr>)"
  using assms by (simp add: teardownClient_def Let_def live_session_def)

lemma live_session_None: "sessions m a = None \<Longrightarrow> live_session m a = None"
  by (simp add: live_session_def)

lemma ensureClient_new:
  assumes "sessions m (agent_id r) = None"
  shows "ensureClient m r now None =
    Inr (m\<lparr>objects := (objects m)(next_ref m \<mapsto>
              \<lparr>agent = r, client = next_ref m, qr = None, qrUpdatedAt = None, isReady = False,
               status = agent_status r, lastAgentRefresh = now, shuttingDown = False,
               metricsCounted = False, handler_record = r\<rparr>),
           sessions := (sessions m)(agent_id r \<mapsto> next_ref m),
           next_ref := next_ref m + 1\<rparr>, next_ref m)"
  using assms by (simp add: ensureClient_def live_session_None Let_def)

text \<open>
  \<open>freshRecord\<close> is never falsy: it is the row when there is one and the record of
  the timer otherwise.
\<close>

lemma freshRecord_Some:
  "freshRecord rows a r = Some (case getAgent rows a of Some x \<Rightarrow> x | None \<Rightarrow> r)"
  by (simp add: freshRecord_def split: option.split)

lemma freshRecord_agent_id:
  "agent_id r = a \<Longrightarrow> agent_id (case getAgent rows a of Some x \<Rightarrow> x | None \<Rightarrow> r) = a"
  by (auto simp: getAgent_agent_id split: option.split)

lemma restart_timer_fired_eq:
  assumes "reconnectTimers m a = Some t" and "agent_id (timer_record t) = a"
  shows "restart_timer_fired m a now None =
    (let m2 = teardownClient (m\<lparr>reconnectTimers := (reconnectTimers m)(a := None)\<rparr>) a True
                (timer_clearAuth t) now;
         r = (case getAgent (db m) a of Some x \<Rightarrow> x | None \<Rightarrow> timer_record t)
     in m2\<lparr>objects := (objects m2)(next_ref m \<mapsto>
              \<lparr>agent = r, client = next_ref m, qr = None, qrUpdatedAt = None, isReady = False,
               status = agent_status r, lastAgentRefresh = now, shuttingDown = False,
               metricsCounted = False, handler_record = r\<rparr>),
           sessions := (sessions m2)(a \<mapsto> next_ref m),
           next_ref := next_ref m + 1\<rparr>)"
proof -
  let ?m1 = "m\<lparr>reconnectTimers := (reconnectTimers m)(a := None)\<rparr>"
  let ?m2 = "teardownClient ?m1 a True (timer_clearAuth t) now"
  let ?r = "case getAgent (db m) a of Some x \<Rightarrow> x | None \<Rightarrow> timer_record t"
  have id: "agent_id ?r = a" using assms(2) by (rule freshRecord_agent_id)
  have "sessions ?m2 (agent_id ?r) = None"
    by (simp only: id teardownClient_sessions)
  from ensureClient_new[OF this, of now] show ?thesis
    using assms(1) by (simp add: restart_timer_fired_def freshRecord_Some Let_def id teardownClient_next_ref)
qed

text \<open>
  When the timer of an agent fires and the new client can be built, the callback goes
  on with the row of the agent if the table has one and with the record of the timer
  otherwise: the timer is gone, the table is unchanged, the auth directory is removed
  if the restart was scheduled with \<open>clearAuth\<close>, the session that was live is
  marked \<open>shuttingDown\<close>, and a new session with a new client is registered.
\<close>

lemma restart_timer_fired_restarts:
  assumes "reconnectTimers m a = Some t" and "agent_id (timer_record t) = a"
  shows "reconnectTimers (restart_timer_fired m a now None) a = None"
    and "db (restart_timer_fired m a now None) = db m"
    and "authDirs (restart_timer_fired m a now None) =
          (if timer_clearAuth t then authDirs m - {sessionAuthPath a} else authDirs m)"
    and "live_session (restart_timer_fired m a now None) a =
          Some (next_ref m,
            \<lparr>agent = (case getAgent (db m) a of Some r \<Rightarrow> r | None \<Rightarrow> timer_record t),
             client = next_ref m, qr = None, qrUpdatedAt = None, isReady = False,
             status = agent_status (case getAgent (db m) a of Some r \<Rightarrow> r | None \<Rightarrow> timer_record t),
             lastAgentRefresh = now, shuttingDown = False, metricsCounted = False,
             handler_record = (case getAgent (db m) a of Some r \<Rightarrow> r | None \<Rightarrow> timer_record t)\<rparr>)"
    and "sessions m a = Some sid \<Longrightarrow> objects m sid = Some s \<Longrightarrow> sid \<noteq> next_ref m \<Longrightarrow>
          objects (restart_timer_fired m a now None) sid = Some (s\<lparr>shuttingDown := True\<rparr>)"
proof -
  let ?m1 = "m\<lparr>reconnectTimers := (reconnectTimers m)(a := None)\<rparr>"
  let ?m2 = "teardownClient ?m1 a True (timer_clearAuth t) now"
  note eq = restart_timer_fired_eq[OF assms, of now]
  show "reconnectTimers (restart_timer_fired m a now None) a = None"
    by (simp add: eq Let_def teardownClient_timers)
  show "db (restart_timer_fired m a now None) = db m"
    by (simp add: eq Let_def teardownClient_db)
  show "authDirs (restart_timer_fired m a now None) =
          (if timer_clearAuth t then authDirs m - {sessionAuthPath a} else authDirs m)"
    by (simp add: eq Let_def teardownClient_authDirs)
  show "live_session (restart_timer_fired m a now None) a =
          Some (next_ref m,
            \<lparr>agent = (case getAgent (db m) a of Some r \<Rightarrow> r | None \<Rightarrow> timer_record t),
             client = next_ref m, qr = None, qrUpdatedAt = None, isReady = False,
             status = agent_status (case getAgent (db m) a of Some r \<Rightarrow> r | None \<Rightarrow> timer_record t),
             lastAgentRefresh = now, shuttingDown = False, metricsCounted = False,
             handler_record = (case getAgent (db m) a of Some r \<Rightarrow> r | None \<Rightarrow> timer_record t)\<rparr>)"
    by (simp add: eq Let_def live_session_def)
  {
    assume a: "sessions m a = Some sid" "objects m sid = Some s" "sid \<noteq> next_ref m"
    then have "objects ?m2 sid = Some (s\<lparr>shuttingDown := True\<rparr>)"
      by (intro teardownClient_marks) simp_all
    with a show "objects (restart_timer_fired m a now None) sid = Some (s\<lparr>shuttingDown := True\<rparr>)"
      by (simp add: eq Let_def)
  }
qed

text \<open>
  When the new client cannot be built, the session has been torn down all the same and
  the restart is scheduled again, with the record of the timer, one more attempt and
  twice the delay (at most 60000 ms).
\<close>

lemma restart_timer_fired_failure:
  assumes "reconnectTimers m a = Some t" and "agent_id (timer_record t) = a"
  shows "restart_timer_fired m a now (Some e) =
    scheduleSessionRestart
      (teardownClient (m\<lparr>reconnectTimers := (reconnectTimers m)(a := None)\<rparr>) a True
         (timer_clearAuth t) now)
      (timer_record t) (timer_reason t) (timer_clearAuth t) (timer_attempt t + 1)
      (Some (min (timer_delay t * 2) 60000))"
proof -
  let ?m1 = "m\<lparr>reconnectTimers := (reconnectTimers m)(a := None)\<rparr>"
  let ?m2 = "teardownClient ?m1 a True (timer_clearAuth t) now"
  let ?r = "case getAgent (db m) a of Some x \<Rightarrow> x | None \<Rightarrow> timer_record t"
  have id: "agent_id ?r = a" using assms(2) by (rule freshRecord_agent_id)
  have "sessions ?m2 (agent_id ?r) = None"
    by (simp only: id teardownClient_sessions)
  then have "live_session ?m2 (agent_id ?r) = None" by (rule live_session_None)
  then have "ensureClient ?m2 ?r now (Some e) = Inl e" by (simp add: ensureClient_def)
  then show ?thesis
    using assms(1) by (simp add: restart_timer_fired_def freshRecord_Some Let_def)
qed

lemma logout_reason: "str_includes (toLowerCase ''LOGOUT'') ''logout''"
  by code_simp

text \<open>
  Claim C1 at a timer that fires when the table has no row for the agent. Session 0 of
  agent \<open>a1\<close> has stored its credentials and was disconnected with reason
  \<open>LOGOUT\<close>, so a restart with \<open>clearAuth\<close> is pending, and \<open>getAgent\<close> finds no
  record. When the timer fires, \<open>freshRecord\<close> is the record the timer was set with,
  not a falsy value, and the callback does not return at line 562: it tears the
  session down (object 0 is marked \<open>shuttingDown\<close>, the auth directory is removed)
  and creates a new client (session 1) from that record.
\<close>

theorem restart_timer_without_record_restarts:
  "getAgent (db (manager_run (new_manager [])
       [EnsureClient example_agent 0 None, ClientAuthStored 0,
        ClientDisconnected 0 (Some ''LOGOUT'') 10])) ''a1'' = None
   \<and> sessions (manager_run (new_manager [])
       [EnsureClient example_agent 0 None, ClientAuthStored 0,
        ClientDisconnected 0 (Some ''LOGOUT'') 10]) ''a1'' = Some 0
   \<and> map_option shuttingDown (objects (manager_run (new_manager [])
       [EnsureClient example_agent 0 None, ClientAuthStored 0,
        ClientDisconnected 0 (Some ''LOGOUT'') 10]) 0) = Some False
   \<and> authDirs (manager_run (new_manager [])
       [EnsureClient example_agent 0 None, ClientAuthStored 0,
        ClientDisconnected 0 (Some ''LOGOUT'') 10]) = {''session-a1''}
   \<and> reconnectTimers (manager_run (new_manager [])
       [EnsureClient example_agent 0 None, ClientAuthStored 0,
        ClientDisconnected 0 (Some ''LOGOUT'') 10]) ''a1''
      = Some \<lparr>timer_record = example_agent, timer_reason = ''LOGOUT'', timer_clearAuth = True,
              timer_attempt = 1, timer_delay = 5000\<rparr>
   \<and> freshRecord (db (manager_run (new_manager [])
       [EnsureClient example_agent 0 None, ClientAuthStored 0,
        ClientDisconnected 0 (Some ''LOGOUT'') 10])) ''a1'' example_agent = Some example_agent
   \<and> map_option shuttingDown (objects (manager_run (new_manager [])
       [EnsureClient example_agent 0 None, ClientAuthStored 0,
        ClientDisconnected 0 (Some ''LOGOUT'') 10, RestartTimer ''a1'' 5010 None]) 0) = Some True
   \<and> authDirs (manager_run (new_manager [])
       [EnsureClient example_agent 0 None, ClientAuthStored 0,
        ClientDisconnected 0 (Some ''LOGOUT'') 10, RestartTimer ''a1'' 5010 None]) = {}
   \<and> live_session (manager_run (new_manager [])
       [EnsureClient example_agent 0 None, ClientAuthStored 0,
        ClientDisconnected 0 (Some ''LOGOUT'') 10, RestartTimer ''a1'' 5010 None]) ''a1''
      = Some (1, \<lparr>agent = example_agent, client = 1, qr = None, qrUpdatedAt = None,
                  isReady = False, status = awaiting_qr, lastAgentRefresh = 5010,
                  shuttingDown = False, metricsCounted = False,
                  handler_record = example_agent\<rparr>)"
  by (simp add: manager_run_def new_manager_def ensureClient_def live_session_def auth_stored_def
      sessionAuthPath_def on_disconnected_def scheduleSessionRestart_def restart_timer_fired_def
      teardownClient_def getAgent_def freshRecord_def updateStatus_def set_status_def
      example_agent_def Let_def logout_reason)

section \<open>Properties of the QR rendezvous\<close>

lemma waiters_okI:
  assumes "\<And>w e. entries m w = Some e \<Longrightarrow> w < next_ref m"
    and "\<And>w e. entries m w = Some e \<Longrightarrow> entry_ok e"
    and "\<And>a w. readyPromises m a = Some w \<Longrightarrow>
           \<exists>e. entries m w = Some e \<and> outcome e = None \<and> entry_agent e = a"
  shows "waiters_ok m"
  unfolding waiters_ok_def using assms by blast

lemma waiters_ok_bound: "waiters_ok m \<Longrightarrow> entries m w = Some e \<Longrightarrow> w < next_ref m"
  unfolding waiters_ok_def by blast

lemma waiters_ok_entry: "waiters_ok m \<Longrightarrow> entries m w = Some e \<Longrightarrow> entry_ok e"
  unfolding waiters_ok_def by blast

lemma waiters_ok_registered:
  "waiters_ok m \<Longrightarrow> readyPromises m a = Some w \<Longrightarrow>
   \<exists>e. entries m w = Some e \<and> outcome e = None \<and> entry_agent e = a"
  unfolding waiters_ok_def by blast

lemma waiters_ok_unregister:
  assumes ok: "waiters_ok m" and ent: "entries m' = entries m"
    and reg: "readyPromises m' = (readyPromises m)(a := None)" and nr: "next_ref m \<le> next_ref m'"
  shows "waiters_ok m'"
proof (rule waiters_okI)
  fix w e assume "entries m' w = Some e"
  then have e: "entries m w = Some e" by (simp add: ent)
  from waiters_ok_bound[OF ok e] nr show "w < next_ref m'" by simp
  from waiters_ok_entry[OF ok e] show "entry_ok e" .
next
  fix b w assume "readyPromises m' b = Some w"
  then have "readyPromises m b = Some w" by (simp add: reg split: if_splits)
  from waiters_ok_registered[OF ok this]
  show "\<exists>e. entries m' w = Some e \<and> outcome e = None \<and> entry_agent e = b"
    by (simp add: ent)
qed

lemma waiters_ok_frame:
  assumes ok: "waiters_ok m" and ent: "entries m' = entries m"
    and reg: "readyPromises m' = readyPromises m" and nr: "next_ref m \<le> next_ref m'"
  shows "waiters_ok m'"
proof (rule waiters_okI)
  fix w e assume "entries m' w = Some e"
  then have e: "entries m w = Some e" by (simp add: ent)
  from waiters_ok_bound[OF ok e] nr show "w < next_ref m'" by simp
  from waiters_ok_entry[OF ok e] show "entry_ok e" .
next
  fix b w assume "readyPromises m' b = Some w"
  then have "readyPromises m b = Some w" by (simp add: reg)
  from waiters_ok_registered[OF ok this]
  show "\<exists>e. entries m' w = Some e \<and> outcome e = None \<and> entry_agent e = b"
    by (simp add: ent)
qed

lemma waiters_ok_new_manager: "waiters_ok (new_manager rows)"
  by (simp add: waiters_ok_def new_manager_def)

lemma settle_registered:
  assumes ok: "waiters_ok m" and e: "entries m w = Some e"
    and e': "entry_ok e'" and ent: "entries m' = (entries m)(w \<mapsto> e')"
    and reg: "readyPromises m' = (readyPromises m)(entry_agent e := None)"
    and nr: "next_ref m' = next_ref m"
  shows "waiters_ok m'"
proof (rule waiters_okI)
  fix v x assume vx: "entries m' v = Some x"
  show "v < next_ref m'"
  proof (cases "v = w")
    case True
    with waiters_ok_bound[OF ok e] nr show ?thesis by simp
  next
    case False
    with vx ent have "entries m v = Some x" by simp
    from waiters_ok_bound[OF ok this] nr show ?thesis by simp
  qed
  show "entry_ok x"
  proof (cases "v = w")
    case True
    with vx ent e' show ?thesis by simp
  next
    case False
    with vx ent have "entries m v = Some x" by simp
    from waiters_ok_entry[OF ok this] show ?thesis .
  qed
next
  fix b v assume b: "readyPromises m' b = Some v"
  with reg have ne: "b \<noteq> entry_agent e" and old: "readyPromises m b = Some v"
    by (simp_all split: if_splits)
  from waiters_ok_registered[OF ok old]
  obtain x where x: "entries m v = Some x" "outcome x = None" "entry_agent x = b"
    by blast
  have "v \<noteq> w"
  proof
    assume "v = w"
    with x(1) e have "x = e" by simp
    with x(3) ne show False by simp
  qed
  with x ent show "\<exists>e. entries m' v = Some e \<and> outcome e = None \<and> entry_agent e = b"
    by simp
qed

lemma scheduleSessionRestart_waiters:
  "waiters_ok m \<Longrightarrow> waiters_ok (scheduleSessionRestart m r why c n d)"
  by (erule waiters_ok_frame) (simp_all add: scheduleSessionRestart_def Let_def)

lemma ensureClient_fields:
  assumes "ensureClient m r now failure = Inr (m', sid)"
  shows "entries m' = entries m" and "readyPromises m' = readyPromises m"
    and "next_ref m \<le> next_ref m'"
proof -
  have "entries m' = entries m \<and> readyPromises m' = readyPromises m \<and> next_ref m \<le> next_ref m'"
  proof (cases "live_session m (agent_id r)")
    case None
    with assms show ?thesis
      by (cases failure) (auto simp: ensureClient_def Let_def)
  next
    case (Some p)
    with assms show ?thesis
      by (cases p) (auto simp: ensureClient_def)
  qed
  then show "entries m' = entries m" and "readyPromises m' = readyPromises m"
    and "next_ref m \<le> next_ref m'" by simp_all
qed

lemma ensureClient_waiters:
  assumes "waiters_ok m" and "ensureClient m r now failure = Inr (m', sid)"
  shows "waiters_ok m'"
  using assms(1) ensureClient_fields[OF assms(2)] by (rule waiters_ok_frame)

lemma teardownClient_fields:
  "entries (teardownClient m a p c now) = entries m"
  "readyPromises (teardownClient m a p c now) = (readyPromises m)(a := None)"
  "next_ref (teardownClient m a p c now) = next_ref m"
  "sessions (teardownClient m a p c now) a = None"
proof -
  let ?m1 = "m\<lparr>reconnectTimers := (reconnectTimers m)(a := None)\<rparr>"
  have "entries (teardownClient m a p c now) = entries m
    \<and> readyPromises (teardownClient m a p c now) = (readyPromises m)(a := None)
    \<and> next_ref (teardownClient m a p c now) = next_ref m
    \<and> sessions (teardownClient m a p c now) a = None"
  proof (cases "live_session ?m1 a")
    case None
    then show ?thesis by (simp add: teardownClient_def Let_def)
  next
    case (Some q)
    then show ?thesis by (cases q) (simp add: teardownClient_def Let_def)
  qed
  then show "entries (teardownClient m a p c now) = entries m"
    and "readyPromises (teardownClient m a p c now) = (readyPromises m)(a := None)"
    and "next_ref (teardownClient m a p c now) = next_ref m"
    and "sessions (teardownClient m a p c now) a = None" by simp_all
qed

lemma teardownClient_waiters: "waiters_ok m \<Longrightarrow> waiters_ok (teardownClient m a p c now)"
  by (erule waiters_ok_unregister[where a = a]) (simp_all add: teardownClient_fields)

lemma on_ready_waiters: "waiters_ok m \<Longrightarrow> waiters_ok (on_ready m sid now)"
  by (erule waiters_ok_frame) (simp_all add: on_ready_def Let_def split: option.split)

lemma on_auth_failure_waiters: "waiters_ok m \<Longrightarrow> waiters_ok (on_auth_failure m sid now)"
  by (erule waiters_ok_frame)
    (simp_all add: on_auth_failure_def scheduleSessionRestart_def Let_def split: option.split)

lemma on_disconnected_waiters: "waiters_ok m \<Longrightarrow> waiters_ok (on_disconnected m sid reason now)"
  by (erule waiters_ok_frame)
    (simp_all add: on_disconnected_def scheduleSessionRestart_def Let_def split: option.split)

lemma entry_ok_pending: "entry_ok e \<Longrightarrow> timer_live e \<Longrightarrow> outcome e = None"
  by (cases "outcome e") (auto simp: entry_ok_def split: sum.splits)

lemma entry_ok_resolved:
  "entry_ok e \<Longrightarrow> outcome e = None \<Longrightarrow>
   entry_ok (e\<lparr>timer_live := False, outcome := Some (Inr v), resolve_calls := resolve_calls e + 1\<rparr>)"
  by (simp add: entry_ok_def)

lemma entry_ok_rejected:
  "entry_ok e \<Longrightarrow> outcome e = None \<Longrightarrow>
   entry_ok (e\<lparr>timer_live := False, outcome := Some (Inl err), reject_calls := reject_calls e + 1\<rparr>)"
  by (simp add: entry_ok_def)

lemma on_qr_waiters:
  assumes ok: "waiters_ok m"
  shows "waiters_ok (on_qr m sid encoded now)"
proof (cases "objects m sid")
  case None
  with ok show ?thesis by (simp add: on_qr_def)
next
  case (Some s)
  let ?a = "agent_id (handler_record s)"
  show ?thesis
  proof (cases "readyPromises m ?a")
    case None
    with Some have "entries (on_qr m sid encoded now) = entries m"
      and "readyPromises (on_qr m sid encoded now) = readyPromises m"
      and "next_ref m \<le> next_ref (on_qr m sid encoded now)"
      by (simp_all add: on_qr_def Let_def)
    with ok show ?thesis by (rule waiters_ok_frame)
  next
    case reg: (Some w)
    from waiters_ok_registered[OF ok reg]
    obtain e where e: "entries m w = Some e" "outcome e = None" "entry_agent e = ?a"
      by blast
    let ?e' = "e\<lparr>timer_live := False, outcome := Some (Inr encoded), resolve_calls := resolve_calls e + 1\<rparr>"
    have "entry_ok ?e'"
      using waiters_ok_entry[OF ok e(1)] e(2) by (rule entry_ok_resolved)
    moreover from Some reg e have "entries (on_qr m sid encoded now) = (entries m)(w \<mapsto> ?e')"
      by (simp add: on_qr_def Let_def entry_resolve_def)
    moreover from Some reg e have "readyPromises (on_qr m sid encoded now) = (readyPromises m)(entry_agent e := None)"
      by (simp add: on_qr_def Let_def entry_resolve_def)
    moreover from Some reg e have "next_ref (on_qr m sid encoded now) = next_ref m"
      by (simp add: on_qr_def Let_def entry_resolve_def)
    ultimately show ?thesis
      by (rule settle_registered[OF ok e(1)])
  qed
qed

lemma qr_timeout_waiters:
  assumes ok: "waiters_ok m"
  shows "waiters_ok (qr_timeout m w)"
proof (cases "entries m w")
  case None
  with ok show ?thesis by (simp add: qr_timeout_def)
next
  case (Some e)
  show ?thesis
  proof (cases "timer_live e")
    case False
    with Some ok show ?thesis by (simp add: qr_timeout_def)
  next
    case True
    have pending: "outcome e = None"
      using waiters_ok_entry[OF ok Some] True by (rule entry_ok_pending)
    let ?err = "coded_error ''SESSION_NOT_READY'' ''QR generation timed out''"
    let ?e' = "e\<lparr>timer_live := False, outcome := Some (Inl ?err), reject_calls := reject_calls e + 1\<rparr>"
    have "entry_ok ?e'"
      using waiters_ok_entry[OF ok Some] pending by (rule entry_ok_rejected)
    moreover from Some True pending have "entries (qr_timeout m w) = (entries m)(w \<mapsto> ?e')"
      by (simp add: qr_timeout_def entry_reject_def)
    moreover from Some True have "readyPromises (qr_timeout m w) = (readyPromises m)(entry_agent e := None)"
      by (simp add: qr_timeout_def entry_reject_def)
    moreover from Some True have "next_ref (qr_timeout m w) = next_ref m"
      by (simp add: qr_timeout_def entry_reject_def)
    ultimately show ?thesis
      by (rule settle_registered[OF ok Some])
  qed
qed

lemma waitForQr_new_entry:
  assumes "waitForQr m a = Inr (m', r)"
  shows "(entries m' = entries m \<and> readyPromises m' = readyPromises m \<and> next_ref m' = next_ref m)
    \<or> (readyPromises m a = None
        \<and> m' = m\<lparr>entries := (entries m)(next_ref m \<mapsto>
                     \<lparr>entry_agent = a, outcome = None, timer_live = True,
                      resolve_calls = 0, reject_calls = 0\<rparr>),
                  readyPromises := (readyPromises m)(a \<mapsto> next_ref m),
                  next_ref := next_ref m + 1\<rparr>)"
proof (cases "live_session m a")
  case None
  with assms show ?thesis by (simp add: waitForQr_def)
next
  case (Some p)
  obtain sid s where p: "p = (sid, s)" by (cases p)
  show ?thesis
  proof (cases "qr s")
    case (Some q)
    with \<open>live_session m a = Some p\<close> p assms show ?thesis by (auto simp: waitForQr_def)
  next
    case None
    show ?thesis
    proof (cases "readyPromises m a")
      case (Some w)
      with None \<open>live_session m a = Some p\<close> p assms show ?thesis by (auto simp: waitForQr_def)
    next
      case noreg: None
      with None \<open>live_session m a = Some p\<close> p assms show ?thesis
        by (auto simp: waitForQr_def Let_def)
    qed
  qed
qed

lemma waitForQr_waiters:
  assumes ok: "waiters_ok m" and w: "waitForQr m a = Inr (m', r)"
  shows "waiters_ok m'"
  using waitForQr_new_entry[OF w]
proof
  assume "entries m' = entries m \<and> readyPromises m' = readyPromises m \<and> next_ref m' = next_ref m"
  then have "entries m' = entries m" and "readyPromises m' = readyPromises m"
    and "next_ref m \<le> next_ref m'" by simp_all
  with ok show ?thesis by (rule waiters_ok_frame)
next
  let ?w = "next_ref m"
  let ?e = "\<lparr>entry_agent = a, outcome = None, timer_live = True, resolve_calls = 0, reject_calls = 0\<rparr>"
  assume new: "readyPromises m a = None
        \<and> m' = m\<lparr>entries := (entries m)(?w \<mapsto> ?e),
                  readyPromises := (readyPromises m)(a \<mapsto> ?w), next_ref := ?w + 1\<rparr>"
  then have ent: "entries m' = (entries m)(?w \<mapsto> ?e)"
    and reg: "readyPromises m' = (readyPromises m)(a \<mapsto> ?w)"
    and nr: "next_ref m' = Suc ?w" by simp_all
  have fresh: "entries m ?w = None"
  proof (cases "entries m ?w")
    case (Some x)
    from waiters_ok_bound[OF ok this] show ?thesis by simp
  qed simp
  show ?thesis
  proof (rule waiters_okI)
    fix v x assume vx: "entries m' v = Some x"
    show "v < next_ref m'"
    proof (cases "v = ?w")
      case True
      then show ?thesis by (simp add: nr)
    next
      case False
      with vx ent have "entries m v = Some x" by simp
      from waiters_ok_bound[OF ok this] show ?thesis by (simp add: nr)
    qed
    show "entry_ok x"
    proof (cases "v = ?w")
      case True
      with vx ent show ?thesis by (auto simp: entry_ok_def)
    next
      case False
      with vx ent have "entries m v = Some x" by simp
      from waiters_ok_entry[OF ok this] show ?thesis .
    qed
  next
    fix b v assume bv: "readyPromises m' b = Some v"
    show "\<exists>e. entries m' v = Some e \<and> outcome e = None \<and> entry_agent e = b"
    proof (cases "b = a")
      case True
      with bv reg have "v = ?w" by simp
      with True ent show ?thesis by simp
    next
      case False
      with bv reg have old: "readyPromises m b = Some v" by simp
      from waiters_ok_registered[OF ok old]
      obtain x where x: "entries m v = Some x" "outcome x = None" "entry_agent x = b" by blast
      with fresh have "v \<noteq> ?w" by auto
      with x ent show ?thesis by simp
    qed
  qed
qed

lemma auth_stored_waiters: "waiters_ok m \<Longrightarrow> waiters_ok (auth_stored m sid)"
  by (erule waiters_ok_frame) (simp_all add: auth_stored_def split: option.split)

lemma restart_timer_fired_waiters:
  assumes ok: "waiters_ok m"
  shows "waiters_ok (restart_timer_fired m a now failure)"
proof (cases "reconnectTimers m a")
  case None
  with ok show ?thesis by (simp add: restart_timer_fired_def)
next
  case (Some t)
  let ?m1 = "m\<lparr>reconnectTimers := (reconnectTimers m)(a := None)\<rparr>"
  let ?m2 = "teardownClient ?m1 a True (timer_clearAuth t) now"
  let ?r = "case getAgent (db ?m1) a of Some x \<Rightarrow> x | None \<Rightarrow> timer_record t"
  from ok have "waiters_ok ?m1" by (rule waiters_ok_frame) simp_all
  then have ok2: "waiters_ok ?m2" by (rule teardownClient_waiters)
  show ?thesis
  proof (cases "ensureClient ?m2 ?r now failure")
    case (Inl e)
    have "waiters_ok (scheduleSessionRestart ?m2 (timer_record t) (timer_reason t)
        (timer_clearAuth t) (timer_attempt t + 1) (Some (min (timer_delay t * 2) 60000)))"
      using ok2 by (rule scheduleSessionRestart_waiters)
    with Some Inl show ?thesis
      by (simp add: restart_timer_fired_def freshRecord_Some Let_def)
  next
    case (Inr p)
    obtain m3 sid where p: "p = (m3, sid)" by (cases p)
    from ok2 Inr[unfolded p] have "waiters_ok m3" by (rule ensureClient_waiters)
    with Some Inr p show ?thesis
      by (simp add: restart_timer_fired_def freshRecord_Some Let_def)
  qed
qed

lemma manager_step_waiters:
  assumes ok: "waiters_ok m"
  shows "waiters_ok (manager_step m ev)"
proof (cases ev)
  case (EnsureClient r now failure)
  show ?thesis
  proof (cases "ensureClient m r now failure")
    case (Inl e)
    with EnsureClient ok show ?thesis by simp
  next
    case (Inr p)
    obtain m' sid where p: "p = (m', sid)" by (cases p)
    from ok Inr[unfolded p] have "waiters_ok m'" by (rule ensureClient_waiters)
    with EnsureClient Inr p show ?thesis by simp
  qed
next
  case ClientQr
  with ok show ?thesis by (simp add: on_qr_waiters)
next
  case ClientReady
  with ok show ?thesis by (simp add: on_ready_waiters)
next
  case ClientAuthFailure
  with ok show ?thesis by (simp add: on_auth_failure_waiters)
next
  case ClientDisconnected
  with ok show ?thesis by (simp add: on_disconnected_waiters)
next
  case ClientAuthStored
  with ok show ?thesis by (simp add: auth_stored_waiters)
next
  case Teardown
  with ok show ?thesis by (simp add: teardownClient_waiters)
next
  case (WaitForQr a)
  show ?thesis
  proof (cases "waitForQr m a")
    case (Inl e)
    with WaitForQr ok show ?thesis by simp
  next
    case (Inr p)
    obtain m' r where p: "p = (m', r)" by (cases p)
    from ok Inr[unfolded p] have "waiters_ok m'" by (rule waitForQr_waiters)
    with WaitForQr Inr p show ?thesis by simp
  qed
next
  case QrTimeout
  with ok show ?thesis by (simp add: qr_timeout_waiters)
next
  case RestartTimer
  with ok show ?thesis by (simp add: restart_timer_fired_waiters)
qed

lemma manager_run_waiters: "waiters_ok m \<Longrightarrow> waiters_ok (manager_run m evs)"
  unfolding manager_run_def
  by (induction evs arbitrary: m) (simp_all add: manager_step_waiters)

text \<open>
  What \<open>teardownClient\<close> does to a waiter: it removes the live session and deletes the
  waiter from \<open>readyPromises\<close>, and leaves the entry as it is, so a pending promise
  stays pending and its timeout scheduled. That timeout, when it fires, is what
  rejects the promise, with \<open>SESSION_NOT_READY\<close>. In every state the supervisor
  reaches, an entry is pending with its timeout scheduled, or was settled by exactly
  one call: one \<open>resolve\<close> or one \<open>reject\<close>, never both.
\<close>

lemma teardown_discards_waiter_unsettled:
  "(readyPromises m a = Some w \<longrightarrow>
      sessions (teardownClient m a p c now) a = None
      \<and> readyPromises (teardownClient m a p c now) a = None
      \<and> entries (teardownClient m a p c now) = entries m)
   \<and> (entries m w = Some e \<and> outcome e = None \<and> timer_live e \<longrightarrow>
        entries (qr_timeout m w) w =
          Some (e\<lparr>timer_live := False,
                  outcome := Some (Inl (coded_error ''SESSION_NOT_READY'' ''QR generation timed out'')),
                  reject_calls := reject_calls e + 1\<rparr>))
   \<and> (\<forall>v x. entries (manager_run (new_manager rows) evs) v = Some x \<longrightarrow>
        (case outcome x of
           None \<Rightarrow> timer_live x \<and> resolve_calls x = 0 \<and> reject_calls x = 0
         | Some (Inl err) \<Rightarrow> \<not> timer_live x \<and> resolve_calls x = 0 \<and> reject_calls x = 1
         | Some (Inr q) \<Rightarrow> \<not> timer_live x \<and> resolve_calls x = 1 \<and> reject_calls x = 0))"
proof (intro conjI impI allI)
  show "sessions (teardownClient m a p c now) a = None"
    by (rule teardownClient_fields)
  show "readyPromises (teardownClient m a p c now) a = None"
    by (simp add: teardownClient_fields)
  show "entries (teardownClient m a p c now) = entries m"
    by (rule teardownClient_fields)
next
  assume "entries m w = Some e \<and> outcome e = None \<and> timer_live e"
  then show "entries (qr_timeout m w) w =
          Some (e\<lparr>timer_live := False,
                  outcome := Some (Inl (coded_error ''SESSION_NOT_READY'' ''QR generation timed out'')),
                  reject_calls := reject_calls e + 1\<rparr>)"
    by (simp add: qr_timeout_def entry_reject_def)
next
  fix v x
  assume vx: "entries (manager_run (new_manager rows) evs) v = Some x"
  have "waiters_ok (manager_run (new_manager rows) evs)"
    using waiters_ok_new_manager by (rule manager_run_waiters)
  from waiters_ok_entry[OF this vx] have "entry_ok x" .
  then show "case outcome x of
           None \<Rightarrow> timer_live x \<and> resolve_calls x = 0 \<and> reject_calls x = 0
         | Some (Inl err) \<Rightarrow> \<not> timer_live x \<and> resolve_calls x = 0 \<and> reject_calls x = 1
         | Some (Inr q) \<Rightarrow> \<not> timer_live x \<and> resolve_calls x = 1 \<and> reject_calls x = 0"
    by (simp add: entry_ok_def)
qed

text \<open>
  Claim C3 at a teardown while a waiter is pending. \<open>waitForQr\<close> registers entry 1 for
  agent \<open>a1\<close>, whose client produces no QR code. At 59000 ms the session is
  reconnected: \<open>teardownClient\<close> with \<open>preserveDb\<close> and \<open>clearAuth\<close>, then
  \<open>ensureClient\<close>. \<open>teardownClient\<close> removes the session and deletes entry 1
  from \<open>readyPromises\<close>, and neither calls \<open>entry.reject\<close> nor clears the timeout
  of the entry: its promise is still pending, with no call of \<open>reject\<close> made. The
  timeout left behind then acts on the new session (session 2). A new waiter (entry
  3) is registered; the timeout of entry 1 fires, 60000 ms after it was set, rejects
  entry 1 and deletes entry 3 from \<open>readyPromises\<close>; the \<open>qr\<close> event of session
  2 then finds no waiter, and entry 3 stays pending although the session now holds a
  QR code.
\<close>

theorem teardown_leaves_waiter_pending:
  "readyPromises (manager_run (new_manager [example_agent])
       [EnsureClient example_agent 0 None, WaitForQr ''a1'']) ''a1'' = Some 1
   \<and> sessions (manager_run (new_manager [example_agent])
       [EnsureClient example_agent 0 None, WaitForQr ''a1'', Teardown ''a1'' True True 59000]) ''a1'' = None
   \<and> readyPromises (manager_run (new_manager [example_agent])
       [EnsureClient example_agent 0 None, WaitForQr ''a1'', Teardown ''a1'' True True 59000]) ''a1'' = None
   \<and> entries (manager_run (new_manager [example_agent])
       [EnsureClient example_agent 0 None, WaitForQr ''a1'', Teardown ''a1'' True True 59000]) 1
      = Some \<lparr>entry_agent = ''a1'', outcome = None, timer_live = True,
              resolve_calls = 0, reject_calls = 0\<rparr>
   \<and> readyPromises (manager_run (new_manager [example_agent])
       [EnsureClient example_agent 0 None, WaitForQr ''a1'', Teardown ''a1'' True True 59000,
        EnsureClient example_agent 59000 None, WaitForQr ''a1'']) ''a1'' = Some 3
   \<and> entries (manager_run (new_manager [example_agent])
       [EnsureClient example_agent 0 None, WaitForQr ''a1'', Teardown ''a1'' True True 59000,
        EnsureClient example_agent 59000 None, WaitForQr ''a1'', QrTimeout 1,
        ClientQr 2 (Some \<lparr>contentType = ''image/png'', base64 = ''AAAA''\<rparr>) 61000]) 1
      = Some \<lparr>entry_agent = ''a1'',
              outcome = Some (Inl (coded_error ''SESSION_NOT_READY'' ''QR generation timed out'')),
              timer_live = False, resolve_calls = 0, reject_calls = 1\<rparr>
   \<and> readyPromises (manager_run (new_manager [example_agent])
       [EnsureClient example_agent 0 None, WaitForQr ''a1'', Teardown ''a1'' True True 59000,
        EnsureClient example_agent 59000 None, WaitForQr ''a1'', QrTimeout 1]) ''a1'' = None
   \<and> map_option (\<lambda>(sid, s). (sid, qr s)) (live_session (manager_run (new_manager [example_agent])
       [EnsureClient example_agent 0 None, WaitForQr ''a1'', Teardown ''a1'' True True 59000,
        EnsureClient example_agent 59000 None, WaitForQr ''a1'', QrTimeout 1,
        ClientQr 2 (Some \<lparr>contentType = ''image/png'', base64 = ''AAAA''\<rparr>) 61000]) ''a1'')
      = Some (2, Some \<lparr>contentType = ''image/png'', base64 = ''AAAA''\<rparr>)
   \<and> entries (manager_run (new_manager [example_agent])
       [EnsureClient example_agent 0 None, WaitForQr ''a1'', Teardown ''a1'' True True 59000,
        EnsureClient example_agent 59000 None, WaitForQr ''a1'', QrTimeout 1,
        ClientQr 2 (Some \<lparr>contentType = ''image/png'', base64 = ''AAAA''\<rparr>) 61000]) 3
      = Some \<lparr>entry_agent = ''a1'', outcome = None, timer_live = True,
              resolve_calls = 0, reject_calls = 0\<rparr>"
  by (simp add: manager_run_def new_manager_def ensureClient_def live_session_def waitForQr_def
      teardownClient_def qr_timeout_def entry_reject_def on_qr_def updateStatus_def set_status_def
      example_agent_def Let_def)

end
